theory Spec2Isabelle
  imports Complex_Main "HOL-Library.Multiset"
begin

section \<open>JavaScript strings and arrays\<close>

text \<open>
  A JavaScript string is modelled as a \<^typ>\<open>string\<close>: each \<^typ>\<open>char\<close> is one
  code unit in the range 0..255 (Latin-1). In that range the characters that
  \<^verbatim>\<open>String.prototype.trim\<close> strips (WhiteSpace and LineTerminator of ECMAScript) are
  TAB, LF, VT, FF, CR, SPACE and NBSP.
\<close>

definition is_whitespace :: "char \<Rightarrow> bool" where
  "is_whitespace c =
     (c = CHR 0x09 \<or> c = CHR 0x0A \<or> c = CHR 0x0B \<or> c = CHR 0x0C \<or> c = CHR 0x0D
      \<or> c = CHR 0x20 \<or> c = CHR 0xA0)"

text \<open>\<^verbatim>\<open>s.trim()\<close>: strip whitespace at both ends.\<close>

definition trim :: "string \<Rightarrow> string" where
  "trim s = rev (dropWhile is_whitespace (rev (dropWhile is_whitespace s)))"

text \<open>
  \<^verbatim>\<open>s.split(sep)\<close> for a one-character separator: the pieces between the occurrences of
  the separator, empty pieces included; \<^verbatim>\<open>''.split(' ')\<close> is \<^verbatim>\<open>['']\<close>.
\<close>

fun split_str :: "char \<Rightarrow> string \<Rightarrow> string list" where
  "split_str sep [] = [[]]"
| "split_str sep (c # cs) =
     (if c = sep then [] # split_str sep cs
      else (c # hd (split_str sep cs)) # tl (split_str sep cs))"

text \<open>\<^verbatim>\<open>xs.join(sep)\<close> on an array of strings.\<close>

fun join :: "string \<Rightarrow> string list \<Rightarrow> string" where
  "join sep [] = []"
| "join sep [x] = x"
| "join sep (x # y # ys) = x @ sep @ join sep (y # ys)"

text \<open>
  \<^verbatim>\<open>[...new Set(xs)]\<close>: the elements are added to the set one by one, an element that
  is already a member is skipped, and the spread lists the members in insertion order.
\<close>

definition set_add :: "'a \<Rightarrow> 'a list \<Rightarrow> 'a list" where
  "set_add x members = (if x \<in> set members then members else members @ [x])"

definition new_Set :: "'a list \<Rightarrow> 'a list" where
  "new_Set xs = fold set_add xs []"

section \<open>Splitting the raw query into terms\<close>

text \<open>
  \<^verbatim>\<open>const originalTerms = userQuery.split(' ').filter(term => term.trim() !== '');\<close>
\<close>

definition originalTerms :: "string \<Rightarrow> string list" where
  "originalTerms userQuery = filter (\<lambda>term. trim term \<noteq> []) (split_str CHR '' '' userQuery)"

text \<open>
  The reading of the specification: the maximal runs of characters that are not
  separators, in order. \<open>runs is_whitespace\<close> are the maximal non-whitespace runs.
\<close>

function runs :: "(char \<Rightarrow> bool) \<Rightarrow> string \<Rightarrow> string list" where
  "runs sep s =
     (case dropWhile sep s of
        [] \<Rightarrow> []
      | c # cs \<Rightarrow> takeWhile (\<lambda>x. \<not> sep x) (c # cs) # runs sep (dropWhile (\<lambda>x. \<not> sep x) (c # cs)))"
  by pat_completeness auto
termination
proof (relation "measure (\<lambda>(sep, s). length s)")
  show "wf (measure (\<lambda>(sep, s). length s))" by simp
next
  fix sep :: "char \<Rightarrow> bool" and s :: string and c cs
  assume d: "dropWhile sep s = c # cs"
  have "\<not> sep c" using d hd_dropWhile[of sep s] by auto
  then have "dropWhile (\<lambda>x. \<not> sep x) (c # cs) = dropWhile (\<lambda>x. \<not> sep x) cs" by simp
  moreover have "length (dropWhile (\<lambda>x. \<not> sep x) cs) \<le> length cs"
    by (rule length_dropWhile_le)
  moreover have "length (c # cs) \<le> length s"
    using length_dropWhile_le[of sep s] d by simp
  ultimately show "((sep, dropWhile (\<lambda>x. \<not> sep x) (c # cs)), (sep, s)) \<in> measure (\<lambda>(sep, s). length s)"
    by simp
qed

declare runs.simps [simp del]


section \<open>Synonym expansion\<close>

text \<open>
  A request made with \<^verbatim>\<open>axios.get\<close> is settled either way: rejected (transport error,
  non-2xx status) with a message, or fulfilled with the parsed response data.
\<close>

datatype 'a settled = Rejected string | Fulfilled 'a

text \<open>
  The data of a DataMuse response is expected to be an array of entries with a field
  \<^verbatim>\<open>word\<close>. On anything else (a body that did not parse, an object, an array with a
  null entry) \<^verbatim>\<open>response.data.map(word => word.word)\<close> raises a TypeError.
\<close>

record datamuse_entry =
  word :: string
  entry_score :: int

datatype datamuse_data = WordArray "datamuse_entry list" | NotAnArray

datatype js_error = AxiosError string | TypeError

text \<open>
  The body of the \<^verbatim>\<open>try\<close> block of \<^verbatim>\<open>expandQuery\<close>. The argument \<open>get\<close> is
  \<^verbatim>\<open>axios.get\<close> on the DataMuse endpoint, as a function of the parameters \<^verbatim>\<open>ml\<close> and
  \<^verbatim>\<open>max\<close>.
\<close>

definition expandQuery_try :: "(string \<Rightarrow> nat \<Rightarrow> datamuse_data settled) \<Rightarrow> string \<Rightarrow> js_error + string list" where
  "expandQuery_try get term =
     (case get term 5 of
        Rejected message \<Rightarrow> Inl (AxiosError message)
      | Fulfilled NotAnArray \<Rightarrow> Inl TypeError
      | Fulfilled (WordArray entries) \<Rightarrow> Inr (map word entries))"

text \<open>\<^verbatim>\<open>expandQuery\<close>: the \<^verbatim>\<open>catch\<close> clause logs the error and returns the empty array.\<close>

definition expandQuery :: "(string \<Rightarrow> nat \<Rightarrow> datamuse_data settled) \<Rightarrow> string \<Rightarrow> string list" where
  "expandQuery get term =
     (case expandQuery_try get term of Inl error \<Rightarrow> [] | Inr related \<Rightarrow> related)"

section \<open>Building the query string\<close>

text \<open>
  \<^verbatim>\<open>const groupTerms = [...new Set([term, ...synonyms])];\<close>
  \<^verbatim>\<open>return groupTerms.length > 1 ? `(${groupTerms.join(' OR ')})` : term;\<close>
\<close>

definition queryGroup :: "string \<Rightarrow> string list \<Rightarrow> string" where
  "queryGroup term synonyms =
     (let groupTerms = new_Set (term # synonyms)
      in if length groupTerms > 1 then ''('' @ join '' OR '' groupTerms @ '')'' else term)"

text \<open>
  \<^verbatim>\<open>originalTerms.map((term, index) => ...)\<close> with \<^verbatim>\<open>synonyms = allSynonyms[index]\<close>. In the
  handler \<open>allSynonyms\<close> has one entry for each term, so the index is in range.
\<close>

definition queryGroups :: "string list \<Rightarrow> string list list \<Rightarrow> string list" where
  "queryGroups terms allSynonyms =
     map (\<lambda>(term, index). queryGroup term (allSynonyms ! index)) (zip terms [0..<length terms])"

definition queryString :: "string list \<Rightarrow> string list list \<Rightarrow> string" where
  "queryString terms allSynonyms = join '' AND '' (queryGroups terms allSynonyms)"

section \<open>JavaScript numbers\<close>

text \<open>
  A JavaScript number is an IEEE 754 double: a finite value, \<^verbatim>\<open>Infinity\<close>, \<^verbatim>\<open>-Infinity\<close> or
  \<^verbatim>\<open>NaN\<close>. The sign of zero is not modelled: no operation of the handler tells the two
  zeros apart, and \<^verbatim>\<open>JSON.stringify\<close> writes both as \<^verbatim>\<open>0\<close>.
\<close>

datatype jsnum = Fin real | PInf | NInf | NaN

text \<open>Rounding to the nearest integer, ties to the even one.\<close>

definition round_even :: "real \<Rightarrow> int" where
  "round_even r =
     (let f = \<lfloor>r\<rfloor>; d = r - of_int f
      in if d < 1 / 2 then f else if d > 1 / 2 then f + 1 else if even f then f else f + 1)"

definition pow2 :: "int \<Rightarrow> real" where
  "pow2 k = 2 powr real_of_int k"

text \<open>
  The exponent of the unit in the last place of a double near \<open>x\<close>: 53 significant
  bits, and no finer than the subnormal step \<open>2\<^sup>-\<^sup>1\<^sup>0\<^sup>7\<^sup>4\<close>.
\<close>

definition ulp_exponent :: "real \<Rightarrow> int" where
  "ulp_exponent x = max (\<lfloor>log 2 \<bar>x\<bar>\<rfloor> - 52) (- 1074)"

text \<open>
  The double nearest to a real number (round to nearest, ties to even), infinite when
  the rounded value reaches \<open>2\<^sup>1\<^sup>0\<^sup>2\<^sup>4\<close>. It gives the value of a JSON number and the
  result of an arithmetic operation on finite doubles.
\<close>

definition rnd :: "real \<Rightarrow> jsnum" where
  "rnd x =
     (if x = 0 then Fin 0
      else let q = pow2 (ulp_exponent x); y = of_int (round_even (x / q)) * q
           in if y \<ge> pow2 1024 then PInf else if y \<le> - pow2 1024 then NInf else Fin y)"

text \<open>\<^verbatim>\<open>v > 0\<close>, \<^verbatim>\<open>v < 0\<close> and \<^verbatim>\<open>u < v\<close>; a comparison with \<^verbatim>\<open>NaN\<close> is false.\<close>

definition js_pos :: "jsnum \<Rightarrow> bool" where
  "js_pos v = (case v of Fin y \<Rightarrow> 0 < y | PInf \<Rightarrow> True | NInf \<Rightarrow> False | NaN \<Rightarrow> False)"

definition js_neg :: "jsnum \<Rightarrow> bool" where
  "js_neg v = (case v of Fin y \<Rightarrow> y < 0 | PInf \<Rightarrow> False | NInf \<Rightarrow> True | NaN \<Rightarrow> False)"

fun js_less :: "jsnum \<Rightarrow> jsnum \<Rightarrow> bool" where
  "js_less NaN v = False"
| "js_less u NaN = False"
| "js_less (Fin x) (Fin y) = (x < y)"
| "js_less (Fin x) PInf = True"
| "js_less (Fin x) NInf = False"
| "js_less PInf v = False"
| "js_less NInf NInf = False"
| "js_less NInf v = True"

text \<open>\<^verbatim>\<open>Math.max\<close> of two numbers.\<close>

fun js_max :: "jsnum \<Rightarrow> jsnum \<Rightarrow> jsnum" where
  "js_max NaN v = NaN"
| "js_max u NaN = NaN"
| "js_max PInf v = PInf"
| "js_max u PInf = PInf"
| "js_max NInf v = v"
| "js_max u NInf = u"
| "js_max (Fin x) (Fin y) = Fin (max x y)"

text \<open>\<^verbatim>\<open>u / v\<close>\<close>

fun js_div :: "jsnum \<Rightarrow> jsnum \<Rightarrow> jsnum" where
  "js_div NaN v = NaN"
| "js_div u NaN = NaN"
| "js_div (Fin x) (Fin y) =
     (if y = 0 then (if x = 0 then NaN else if 0 < x then PInf else NInf) else rnd (x / y))"
| "js_div (Fin x) PInf = Fin 0"
| "js_div (Fin x) NInf = Fin 0"
| "js_div PInf (Fin y) = (if 0 \<le> y then PInf else NInf)"
| "js_div NInf (Fin y) = (if 0 \<le> y then NInf else PInf)"
| "js_div PInf v = NaN"
| "js_div NInf v = NaN"

text \<open>\<^verbatim>\<open>u - v\<close>\<close>

fun js_sub :: "jsnum \<Rightarrow> jsnum \<Rightarrow> jsnum" where
  "js_sub NaN v = NaN"
| "js_sub u NaN = NaN"
| "js_sub (Fin x) (Fin y) = rnd (x - y)"
| "js_sub (Fin x) PInf = NInf"
| "js_sub (Fin x) NInf = PInf"
| "js_sub PInf PInf = NaN"
| "js_sub PInf v = PInf"
| "js_sub NInf NInf = NaN"
| "js_sub NInf v = NInf"

section \<open>Provider responses and result records\<close>

record result =
  title :: string
  source :: string
  original_relevance_score :: jsnum
  link :: string
  normalized_score :: jsnum

text \<open>
  The fields the handler reads of a Europeana item and of a PLOS document; \<open>None\<close> is
  an absent field. A title is an array of strings, a link and an identifier are strings.
  A score is the JSON number of the response text, which \<^verbatim>\<open>JSON.parse\<close> turns into the
  nearest double.
\<close>

record europeana_item =
  item_title :: "string list option"
  edmIsShownBy :: "string option"
  edmIsShownAt :: "string option"
  item_score :: "real option"

record plos_doc =
  title_display :: "string option"
  doc_score :: "real option"
  doc_id :: "string option"

text \<open>
  The value of \<^verbatim>\<open>items\<close> or \<^verbatim>\<open>docs\<close> in a response: falsy (absent, \<^verbatim>\<open>null\<close>, \<^verbatim>\<open>0\<close>, \<^verbatim>\<open>''\<close>,
  \<^verbatim>\<open>false\<close>), truthy but not an array (an object, a non-empty string, a number), or an array.
  An entry of the array is \<open>None\<close> when it is \<^verbatim>\<open>null\<close>; an entry that is not an object
  has no fields and is the object with every field absent.
\<close>

datatype 'a entries = Falsy | NotArray | Array "'a option list"

record europeana_data =
  items :: "europeana_item entries"

record plos_response =
  docs :: "plos_doc entries"

record plos_data =
  response :: "plos_response option"

text \<open>\<^verbatim>\<open>a || b\<close> on an optional string (absent and \<^verbatim>\<open>''\<close> are falsy) and on an optional
  number (absent, 0 and \<^verbatim>\<open>NaN\<close> are falsy).\<close>

definition or_str :: "string option \<Rightarrow> string \<Rightarrow> string" where
  "or_str a b = (case a of None \<Rightarrow> b | Some s \<Rightarrow> if s = [] then b else s)"

definition or_num :: "jsnum option \<Rightarrow> jsnum \<Rightarrow> jsnum" where
  "or_num a b = (case a of None \<Rightarrow> b | Some x \<Rightarrow> if x = Fin 0 \<or> x = NaN then b else x)"

text \<open>The placeholder \<^verbatim>\<open>'Sin T\<close>i\<^verbatim>\<open>tulo'\<close>, whose sixth character is U+00ED.\<close>

definition Sin_Titulo :: string where
  "Sin_Titulo = ''Sin T'' @ [CHR 0xED] @ ''tulo''"

definition europeanaItem :: "europeana_item \<Rightarrow> result" where
  "europeanaItem item =
     (let title = (case item_title item of
                     None \<Rightarrow> Sin_Titulo
                   | Some ts \<Rightarrow> if length ts > 0 then ts ! 0 else Sin_Titulo);
          link = or_str (edmIsShownBy item) (or_str (edmIsShownAt item) ''#'');
          score = or_num (map_option rnd (item_score item)) (Fin 0)
      in \<lparr>title = title, source = ''Europeana'', original_relevance_score = score,
          link = link, normalized_score = Fin 0\<rparr>)"

definition plosItem :: "plos_doc \<Rightarrow> result" where
  "plosItem doc =
     (let title = or_str (title_display doc) Sin_Titulo;
          score = or_num (map_option rnd (doc_score doc)) (Fin 0);
          link = (case doc_id doc of
                    None \<Rightarrow> ''#''
                  | Some i \<Rightarrow> if i = [] then ''#''
                              else ''https://journals.plos.org/plosone/article?id='' @ i)
      in \<lparr>title = title, source = ''PLOS'', original_relevance_score = score,
          link = link, normalized_score = Fin 0\<rparr>)"

text \<open>
  \<^verbatim>\<open>xs.map(f)\<close> where \<open>f\<close> reads fields of its argument: reading a field of \<^verbatim>\<open>null\<close> raises a
  TypeError, which ends the map.
\<close>

fun map_entries :: "('a \<Rightarrow> 'b) \<Rightarrow> 'a option list \<Rightarrow> js_error + 'b list" where
  "map_entries f [] = Inr []"
| "map_entries f (None # es) = Inl TypeError"
| "map_entries f (Some e # es) =
     (case map_entries f es of Inl err \<Rightarrow> Inl err | Inr rs \<Rightarrow> Inr (f e # rs))"

text \<open>
  The records one provider contributes. A rejected request, and a fulfilled one whose data
  or \<^verbatim>\<open>items\<close> is falsy, are logged and contribute nothing. When \<^verbatim>\<open>items\<close> is truthy the
  handler calls \<^verbatim>\<open>items.map\<close>: that raises a TypeError when \<^verbatim>\<open>items\<close> is not an array or
  holds \<^verbatim>\<open>null\<close>, and the handler has no \<^verbatim>\<open>try\<close> around it.
\<close>

definition europeanaItems :: "europeana_data option settled \<Rightarrow> js_error + result list" where
  "europeanaItems europeanaResult =
     (case europeanaResult of
        Fulfilled (Some d) \<Rightarrow>
          (case items d of
             Falsy \<Rightarrow> Inr []
           | NotArray \<Rightarrow> Inl TypeError
           | Array its \<Rightarrow> map_entries europeanaItem its)
      | Fulfilled None \<Rightarrow> Inr []
      | Rejected reason \<Rightarrow> Inr [])"

definition plosItems :: "plos_data option settled \<Rightarrow> js_error + result list" where
  "plosItems plosResult =
     (case plosResult of
        Fulfilled (Some d) \<Rightarrow>
          (case response d of
             Some r \<Rightarrow>
               (case docs r of
                  Falsy \<Rightarrow> Inr []
                | NotArray \<Rightarrow> Inl TypeError
                | Array ds \<Rightarrow> map_entries plosItem ds)
           | None \<Rightarrow> Inr [])
      | Fulfilled None \<Rightarrow> Inr []
      | Rejected reason \<Rightarrow> Inr [])"

section \<open>Normalization and ranking\<close>

text \<open>\<^verbatim>\<open>Math.max(...allResults.map(r => r.original_relevance_score), 0)\<close>\<close>

definition maxScore :: "result list \<Rightarrow> jsnum" where
  "maxScore allResults = foldr js_max (map original_relevance_score allResults) (Fin 0)"

text \<open>\<^verbatim>\<open>maxScore > 0 ? maxScore : 1\<close>\<close>

definition divisor :: "result list \<Rightarrow> jsnum" where
  "divisor allResults = (if js_pos (maxScore allResults) then maxScore allResults else Fin 1)"

definition normalize :: "result list \<Rightarrow> result list" where
  "normalize allResults =
     (if length allResults > 0
      then map (\<lambda>result. result\<lparr>normalized_score :=
                  js_div (original_relevance_score result) (divisor allResults)\<rparr>)
             allResults
      else allResults)"

text \<open>
  \<^verbatim>\<open>allResults.sort((a, b) => b.normalized_score - a.normalized_score)\<close>.
  \<^verbatim>\<open>Array.prototype.sort\<close> is stable, and reads a comparator result that is \<^verbatim>\<open>NaN\<close> as 0. It is
  modelled as the insertion sort that moves an element behind the later elements the
  comparator puts before it (a positive result), up to the first one it does not.
\<close>

definition by_normalized_score :: "result \<Rightarrow> result \<Rightarrow> jsnum" where
  "by_normalized_score a b = js_sub (normalized_score b) (normalized_score a)"

fun insert_by :: "('a \<Rightarrow> 'a \<Rightarrow> jsnum) \<Rightarrow> 'a \<Rightarrow> 'a list \<Rightarrow> 'a list" where
  "insert_by cmp x [] = [x]"
| "insert_by cmp x (y # ys) = (if js_pos (cmp x y) then y # insert_by cmp x ys else x # y # ys)"

definition sort_by :: "('a \<Rightarrow> 'a \<Rightarrow> jsnum) \<Rightarrow> 'a list \<Rightarrow> 'a list" where
  "sort_by cmp xs = foldr (insert_by cmp) xs []"

section \<open>The search handler\<close>

text \<open>
  The external services of one request: the response to the \<open>i\<close>-th expansion request
  (as a function of \<^verbatim>\<open>ml\<close> and \<^verbatim>\<open>max\<close>) and the responses of Europeana and of PLOS to a
  query string.
\<close>

record services =
  datamuse :: "nat \<Rightarrow> string \<Rightarrow> nat \<Rightarrow> datamuse_data settled"
  europeana :: "string \<Rightarrow> europeana_data option settled"
  plos :: "string \<Rightarrow> plos_data option settled"

datatype request = DataMuseGet string nat | EuropeanaGet string nat | PlosGet string nat

text \<open>
  What becomes of the request: the response \<^verbatim>\<open>res.status(400).json({error: ...})\<close>, the
  response \<^verbatim>\<open>res.json(allResults)\<close>, or an error raised in the handler and caught nowhere,
  with no response sent.
\<close>

datatype answer = Status400 string | Json "result list" | Uncaught js_error

record exchange =
  outbound :: "request list"
  answer :: answer

definition q_requerido :: string where
  "q_requerido = ''El par'' @ [CHR 0xE1] @ ''metro de consulta '' @ [CHR 0x22] @ ''q'' @ [CHR 0x22] @ '' es requerido.''"

definition allSynonyms :: "services \<Rightarrow> string list \<Rightarrow> string list list" where
  "allSynonyms w terms = map (\<lambda>(term, i). expandQuery (datamuse w i) term) (zip terms [0..<length terms])"

text \<open>
  The records collected from the two providers, Europeana's first; an error raised while
  the items of Europeana are mapped ends the handler before those of PLOS are read.
\<close>

definition collected :: "services \<Rightarrow> string \<Rightarrow> js_error + result list" where
  "collected w q =
     (case europeanaItems (europeana w q) of
        Inl err \<Rightarrow> Inl err
      | Inr europeanaRecords \<Rightarrow>
          (case plosItems (plos w q) of
             Inl err \<Rightarrow> Inl err
           | Inr plosRecords \<Rightarrow> Inr (europeanaRecords @ plosRecords)))"

text \<open>
  The handler of \<^verbatim>\<open>GET /search\<close>. Its argument is \<^verbatim>\<open>req.query.q\<close>, a string, or \<open>None\<close>
  when the parameter is absent. The result holds the outbound requests made and what
  becomes of the request.
\<close>

definition handler :: "services \<Rightarrow> string option \<Rightarrow> exchange" where
  "handler w q =
     (case q of
        None \<Rightarrow> \<lparr>outbound = [], answer = Status400 q_requerido\<rparr>
      | Some userQuery \<Rightarrow>
          if userQuery = [] then \<lparr>outbound = [], answer = Status400 q_requerido\<rparr>
          else
            let terms = originalTerms userQuery;
                expansions = map (\<lambda>term. DataMuseGet term 5) terms;
                query = queryString terms (allSynonyms w terms)
            in if query = [] then \<lparr>outbound = expansions, answer = Json []\<rparr>
               else \<lparr>outbound = expansions @ [EuropeanaGet query 20, PlosGet query 20],
                     answer = (case collected w query of
                                 Inl err \<Rightarrow> Uncaught err
                               | Inr allResults \<Rightarrow>
                                   Json (sort_by by_normalized_score (normalize allResults)))\<rparr>)"

section \<open>The specification's wording of the query builder\<close>

text \<open>Deduplication that keeps the first occurrence of every member.\<close>

fun dedup_first :: "'a list \<Rightarrow> 'a list" where
  "dedup_first [] = []"
| "dedup_first (x # xs) = x # dedup_first (filter (\<lambda>y. y \<noteq> x) xs)"

text \<open>A group is rendered as its one member, or as its members joined by OR in parentheses.\<close>

definition render_group :: "string list \<Rightarrow> string" where
  "render_group members =
     (case members of [m] \<Rightarrow> m | _ \<Rightarrow> ''('' @ join '' OR '' members @ '')'')"

definition spec_queryString :: "string list \<Rightarrow> string list list \<Rightarrow> string" where
  "spec_queryString terms syns =
     join '' AND '' (map2 (\<lambda>term synonyms. render_group (dedup_first (term # synonyms))) terms syns)"


section \<open>Failure of an outbound request\<close>

text \<open>
  An expansion fails when the request is rejected or its data cannot be mapped. A
  provider fails when the request is rejected or the response has not the expected
  shape; the handler detects the shapes in which the data, \<^verbatim>\<open>items\<close>, \<^verbatim>\<open>response\<close> or
  \<^verbatim>\<open>docs\<close> is falsy.
\<close>

definition expansion_failed :: "datamuse_data settled \<Rightarrow> bool" where
  "expansion_failed r = (case r of Rejected message \<Rightarrow> True | Fulfilled d \<Rightarrow> d = NotAnArray)"

definition europeana_detected_failure :: "europeana_data option settled \<Rightarrow> bool" where
  "europeana_detected_failure r =
     (case r of Rejected message \<Rightarrow> True | Fulfilled None \<Rightarrow> True | Fulfilled (Some d) \<Rightarrow> items d = Falsy)"

definition plos_detected_failure :: "plos_data option settled \<Rightarrow> bool" where
  "plos_detected_failure r =
     (case r of
        Rejected message \<Rightarrow> True
      | Fulfilled None \<Rightarrow> True
      | Fulfilled (Some d) \<Rightarrow> (case response d of None \<Rightarrow> True | Some x \<Rightarrow> docs x = Falsy))"

text \<open>The query string the handler sends to the providers for a raw query.\<close>

definition searchQuery :: "services \<Rightarrow> string \<Rightarrow> string" where
  "searchQuery w userQuery =
     queryString (originalTerms userQuery) (allSynonyms w (originalTerms userQuery))"

text \<open>Services none of which can be reached.\<close>

definition offline :: services where
  "offline = \<lparr>datamuse = (\<lambda>i ml mx. Rejected ''timeout''),
              europeana = (\<lambda>q. Rejected ''timeout''),
              plos = (\<lambda>q. Rejected ''timeout'')\<rparr>"

section \<open>Example services\<close>

text \<open>Only PLOS answers, with one document of score 0.5.\<close>

definition plos_half :: services where
  "plos_half = offline\<lparr>plos := (\<lambda>q. Fulfilled (Some \<lparr>response = Some \<lparr>docs = Array
      [Some \<lparr>title_display = Some ''A'', doc_score = Some (1 / 2), doc_id = None\<rparr>]\<rparr>\<rparr>))\<rparr>"

text \<open>
  The lexical service knows one word related to \<^verbatim>\<open>cat\<close> and none to any other term;
  Europeana answers with one item and PLOS with two documents.
\<close>

definition demo :: services where
  "demo = \<lparr>datamuse = (\<lambda>i ml mx. if ml = ''cat''
                          then Fulfilled (WordArray [\<lparr>word = ''feline'', entry_score = 1\<rparr>])
                          else Fulfilled (WordArray [])),
           europeana = (\<lambda>q. Fulfilled (Some \<lparr>items = Array
             [Some \<lparr>item_title = Some [''E1''], edmIsShownBy = None, edmIsShownAt = Some ''http://e/1'',
               item_score = Some 5\<rparr>]\<rparr>)),
           plos = (\<lambda>q. Fulfilled (Some \<lparr>response = Some \<lparr>docs = Array
             [Some \<lparr>title_display = Some ''P1'', doc_score = Some 10, doc_id = Some ''p1''\<rparr>,
              Some \<lparr>title_display = None, doc_score = Some 5, doc_id = None\<rparr>]\<rparr>\<rparr>))\<rparr>"

text \<open>The same services with Europeana unreachable.\<close>

definition plos_only :: services where
  "plos_only = demo\<lparr>europeana := (\<lambda>q. Rejected ''timeout'')\<rparr>"

text \<open>The same services with a Europeana response whose \<^verbatim>\<open>items\<close> is an object.\<close>

definition items_object :: services where
  "items_object = demo\<lparr>europeana := (\<lambda>q. Fulfilled (Some \<lparr>items = NotArray\<rparr>))\<rparr>"

text \<open>Only PLOS answers, with \<^verbatim>\<open>docs\<close> equal to \<^verbatim>\<open>[null]\<close>.\<close>

definition null_doc :: services where
  "null_doc = offline\<lparr>plos := (\<lambda>q. Fulfilled (Some \<lparr>response = Some \<lparr>docs = Array [None]\<rparr>\<rparr>))\<rparr>"

text \<open>A lexical service that reports the same word twice.\<close>

definition echo :: "string \<Rightarrow> nat \<Rightarrow> datamuse_data settled" where
  "echo ml mx = Fulfilled (WordArray [\<lparr>word = ''feline'', entry_score = 2\<rparr>, \<lparr>word = ''feline'', entry_score = 1\<rparr>])"

text \<open>Only Europeana answers, with one item whose title array holds the empty string.\<close>

definition untitled :: services where
  "untitled = offline\<lparr>europeana := (\<lambda>q. Fulfilled (Some \<lparr>items = Array
      [Some \<lparr>item_title = Some [''''], edmIsShownBy = None, edmIsShownAt = None, item_score = Some 1\<rparr>]\<rparr>))\<rparr>"

section \<open>The grid of the doubles\<close>

text \<open>Every finite double is a multiple of the least subnormal.\<close>

definition grid :: "real \<Rightarrow> bool" where
  "grid y = (\<exists>n::int. y = of_int n * pow2 (- 1074))"

text \<open>
  A double other than \<^verbatim>\<open>NaN\<close>; a set of numbers on which the comparator is an order (doubles
  other than \<^verbatim>\<open>NaN\<close>, or nothing but 0 and \<^verbatim>\<open>NaN\<close>); and the descending order of two
  records: the second has no greater normalized score than the first.
\<close>

definition is_double :: "jsnum \<Rightarrow> bool" where
  "is_double v = (case v of Fin y \<Rightarrow> grid y | PInf \<Rightarrow> True | NInf \<Rightarrow> True | NaN \<Rightarrow> False)"

definition orderly :: "jsnum set \<Rightarrow> bool" where
  "orderly vs = ((\<forall>v \<in> vs. is_double v) \<or> (\<forall>v \<in> vs. v = Fin 0 \<or> v = NaN))"

definition not_below :: "result \<Rightarrow> result \<Rightarrow> bool" where
  "not_below a b = (\<not> js_less (normalized_score a) (normalized_score b))"

section \<open>Lemmas on strings and terms\<close>

lemma split_str_not_Nil: "split_str sep s \<noteq> []"
  by (induction s) auto

lemma all_dropWhile: "(\<forall>x \<in> set (dropWhile P s). P x) \<longleftrightarrow> (\<forall>x \<in> set s. P x)"
  by (induction s) auto

lemma trim_Nil_iff: "trim s = [] \<longleftrightarrow> (\<forall>c \<in> set s. is_whitespace c)"
  by (simp add: trim_def all_dropWhile)

lemma split_str_no_sep: "sep \<notin> set s \<Longrightarrow> split_str sep s = [s]"
  by (induction s) auto

lemma split_str_append_sep:
  "sep \<notin> set a \<Longrightarrow> split_str sep (a @ sep # b) = a # split_str sep b"
  by (induction a) auto

lemma filter_split_dropWhile:
  "filter (\<lambda>t. t \<noteq> []) (split_str sep (dropWhile (\<lambda>x. x = sep) s)) = filter (\<lambda>t. t \<noteq> []) (split_str sep s)"
  by (induction s) auto

lemma runs_split: "runs (\<lambda>x. x = sep) s = filter (\<lambda>t. t \<noteq> []) (split_str sep s)"
proof (induction "\<lambda>x. x = sep" s rule: runs.induct)
  case (1 s)
  show ?case
  proof (cases "dropWhile (\<lambda>x. x = sep) s")
    case Nil
    have l: "runs (\<lambda>x. x = sep) s = []"
      by (subst runs.simps) (simp only: Nil list.case)
    have "filter (\<lambda>t. t \<noteq> []) (split_str sep (dropWhile (\<lambda>x. x = sep) s)) = []"
      by (simp only: Nil) simp
    then have "filter (\<lambda>t. t \<noteq> []) (split_str sep s) = []"
      by (simp only: filter_split_dropWhile)
    with l show ?thesis by simp
  next
    case (Cons c cs)
    define t where "t = takeWhile (\<lambda>x. x \<noteq> sep) (c # cs)"
    define r where "r = dropWhile (\<lambda>x. x \<noteq> sep) (c # cs)"
    have c: "c \<noteq> sep" using Cons hd_dropWhile[of "\<lambda>x. x = sep" s] by auto
    have tne: "t \<noteq> []" using c by (simp add: t_def)
    have nt: "sep \<notin> set t" unfolding t_def using set_takeWhileD by fastforce
    have d: "c # cs = t @ r" unfolding t_def r_def by simp
    have IH: "runs (\<lambda>x. x = sep) r = filter (\<lambda>t. t \<noteq> []) (split_str sep r)"
      unfolding r_def using 1[OF Cons] by simp
    have "filter (\<lambda>t. t \<noteq> []) (split_str sep (t @ r)) = t # filter (\<lambda>t. t \<noteq> []) (split_str sep r)"
    proof (cases r)
      case Nil
      then show ?thesis using nt tne split_str_no_sep[of sep t] by simp
    next
      case (Cons y ys)
      then have y: "y = sep" unfolding r_def using hd_dropWhile[of "\<lambda>x. x \<noteq> sep" "c # cs"] by auto
      have "split_str sep (t @ sep # ys) = t # split_str sep ys"
        using split_str_append_sep[OF nt, of ys] by simp
      then show ?thesis using tne by (simp add: Cons y)
    qed
    then have r: "filter (\<lambda>t. t \<noteq> []) (split_str sep s) = t # filter (\<lambda>t. t \<noteq> []) (split_str sep r)"
      using filter_split_dropWhile[of sep s] by (simp only: Cons d)
    have l: "runs (\<lambda>x. x = sep) s = t # runs (\<lambda>x. x = sep) r"
      unfolding t_def r_def by (subst runs.simps) (simp only: Cons list.case)
    show ?thesis by (simp only: l r IH)
  qed
qed

section \<open>Lemmas on query groups\<close>

lemma fold_set_add:
  "fold set_add xs acc = acc @ dedup_first (filter (\<lambda>x. x \<notin> set acc) xs)"
proof (induction xs arbitrary: acc)
  case Nil
  then show ?case by simp
next
  case (Cons x xs)
  show ?case
  proof (cases "x \<in> set acc")
    case True
    then show ?thesis using Cons[of acc] by (simp add: set_add_def)
  next
    case False
    have "filter (\<lambda>y. y \<notin> set (acc @ [x])) xs = filter (\<lambda>y. y \<noteq> x) (filter (\<lambda>y. y \<notin> set acc) xs)"
      by (induction xs) auto
    then show ?thesis using False Cons[of "acc @ [x]"] by (simp add: set_add_def)
  qed
qed

lemma new_Set_dedup_first: "new_Set xs = dedup_first xs"
  by (simp add: new_Set_def fold_set_add)

lemma set_dedup_first: "set (dedup_first xs) = set xs"
  by (induction xs rule: dedup_first.induct) auto

lemma distinct_dedup_first: "distinct (dedup_first xs)"
  by (induction xs rule: dedup_first.induct) (auto simp: set_dedup_first)

lemma queryGroup_render: "queryGroup term synonyms = render_group (dedup_first (term # synonyms))"
  by (cases "dedup_first (filter (\<lambda>y. y \<noteq> term) synonyms)")
     (simp_all add: queryGroup_def render_group_def new_Set_dedup_first Let_def)

lemma queryGroups_map2:
  "length allSyn = length terms \<Longrightarrow> queryGroups terms allSyn = map2 queryGroup terms allSyn"
  by (rule nth_equalityI) (simp_all add: queryGroups_def)

section \<open>The terms of a raw query\<close>

lemma runs_Nil: "dropWhile sep s = [] \<Longrightarrow> runs sep s = []"
  by (subst runs.simps) (simp only: list.case)

lemma runs_Cons:
  "dropWhile sep s = c # cs \<Longrightarrow>
   runs sep s = takeWhile (\<lambda>x. \<not> sep x) (c # cs) # runs sep (dropWhile (\<lambda>x. \<not> sep x) (c # cs))"
  by (subst runs.simps) (simp only: list.case)

lemma runs_cong:
  "(\<And>c. c \<in> set s \<Longrightarrow> P c = Q c) \<Longrightarrow> runs P s = runs Q s"
proof (induction P s rule: runs.induct)
  case (1 sep s)
  have dw: "dropWhile sep s = dropWhile Q s"
    using 1(2) by (intro dropWhile_cong) auto
  show ?case
  proof (cases "dropWhile sep s")
    case Nil
    then show ?thesis using dw runs_Nil[of sep s] runs_Nil[of Q s] by simp
  next
    case (Cons c cs)
    have sub: "set (c # cs) \<subseteq> set s" using set_dropWhileD[of _ sep s] Cons by auto
    have tw: "takeWhile (\<lambda>x. \<not> sep x) (c # cs) = takeWhile (\<lambda>x. \<not> Q x) (c # cs)"
      using 1(2) sub by (intro takeWhile_cong) auto
    have dw2: "dropWhile (\<lambda>x. \<not> sep x) (c # cs) = dropWhile (\<lambda>x. \<not> Q x) (c # cs)"
      using 1(2) sub by (intro dropWhile_cong) auto
    have "\<And>x. x \<in> set (dropWhile (\<lambda>x. \<not> sep x) (c # cs)) \<Longrightarrow> sep x = Q x"
      using 1(2) sub set_dropWhileD[of _ "\<lambda>x. \<not> sep x" "c # cs"] by blast
    then have IH: "runs sep (dropWhile (\<lambda>x. \<not> sep x) (c # cs)) = runs Q (dropWhile (\<lambda>x. \<not> sep x) (c # cs))"
      using 1(1)[OF Cons] by blast
    have l: "runs sep s = takeWhile (\<lambda>x. \<not> sep x) (c # cs) # runs sep (dropWhile (\<lambda>x. \<not> sep x) (c # cs))"
      by (subst runs.simps) (simp only: Cons list.case)
    have r: "runs Q s = takeWhile (\<lambda>x. \<not> Q x) (c # cs) # runs Q (dropWhile (\<lambda>x. \<not> Q x) (c # cs))"
      by (subst runs.simps) (simp only: Cons dw[symmetric] list.case)
    show ?thesis using IH by (simp only: l r tw dw2)
  qed
qed

lemma runs_member:
  "t \<in> set (runs sep s) \<Longrightarrow> t \<noteq> [] \<and> (\<forall>c \<in> set t. \<not> sep c) \<and> set t \<subseteq> set s"
proof (induction sep s rule: runs.induct)
  case (1 sep s)
  show ?case
  proof (cases "dropWhile sep s")
    case Nil
    then show ?thesis using 1(2) runs_Nil[of sep s] by simp
  next
    case (Cons c cs)
    have c: "\<not> sep c" using Cons hd_dropWhile[of sep s] by auto
    have sub: "set (c # cs) \<subseteq> set s" using set_dropWhileD[of _ sep s] Cons by auto
    have l: "runs sep s = takeWhile (\<lambda>x. \<not> sep x) (c # cs) # runs sep (dropWhile (\<lambda>x. \<not> sep x) (c # cs))"
      by (subst runs.simps) (simp only: Cons list.case)
    from 1(2) l consider "t = takeWhile (\<lambda>x. \<not> sep x) (c # cs)"
      | "t \<in> set (runs sep (dropWhile (\<lambda>x. \<not> sep x) (c # cs)))" by auto
    then show ?thesis
    proof cases
      case 1
      have "set t \<subseteq> set (c # cs)" unfolding 1 using set_takeWhileD by fastforce
      moreover have "\<forall>x \<in> set t. \<not> sep x" unfolding 1 using set_takeWhileD by fastforce
      moreover have "t \<noteq> []" unfolding 1 using c by simp
      ultimately show ?thesis using sub by blast
    next
      case 2
      then have "t \<noteq> [] \<and> (\<forall>c \<in> set t. \<not> sep c) \<and> set t \<subseteq> set (dropWhile (\<lambda>x. \<not> sep x) (c # cs))"
        using "1.IH"[OF Cons] by blast
      moreover have "set (dropWhile (\<lambda>x. \<not> sep x) (c # cs)) \<subseteq> set (c # cs)"
        using set_dropWhileD by fastforce
      ultimately show ?thesis using sub by blast
    qed
  qed
qed

lemma originalTerms_runs:
  "originalTerms q = filter (\<lambda>t. \<exists>c \<in> set t. \<not> is_whitespace c) (runs (\<lambda>c. c = CHR '' '') q)"
proof -
  have "originalTerms q = filter (\<lambda>t. \<exists>c \<in> set t. \<not> is_whitespace c) (split_str CHR '' '' q)"
    by (simp add: originalTerms_def trim_Nil_iff)
  also have "\<dots> = filter (\<lambda>t. \<exists>c \<in> set t. \<not> is_whitespace c) (filter (\<lambda>t. t \<noteq> []) (split_str CHR '' '' q))"
    by (simp add: conj_commute) (rule filter_cong, auto)
  finally show ?thesis by (simp only: runs_split)
qed

lemma originalTerms_member:
  "t \<in> set (originalTerms q) \<Longrightarrow> t \<noteq> [] \<and> CHR '' '' \<notin> set t \<and> (\<exists>c \<in> set t. \<not> is_whitespace c)"
  using runs_member[of t "\<lambda>c. c = CHR '' ''" q] by (auto simp: originalTerms_runs)

lemma originalTerms_only_spaces:
  assumes "\<And>c. c \<in> set q \<Longrightarrow> is_whitespace c \<Longrightarrow> c = CHR '' ''"
  shows "originalTerms q = runs is_whitespace q"
proof -
  have sp: "is_whitespace CHR '' ''" by (simp add: is_whitespace_def)
  have eq: "runs is_whitespace q = runs (\<lambda>c. c = CHR '' '') q"
    by (rule runs_cong) (use assms sp in auto)
  have "filter (\<lambda>t. \<exists>c \<in> set t. \<not> is_whitespace c) (runs is_whitespace q) = runs is_whitespace q"
  proof (rule filter_True, rule ballI)
    fix t assume "t \<in> set (runs is_whitespace q)"
    then have "t \<noteq> []" "\<forall>c \<in> set t. \<not> is_whitespace c" using runs_member by blast+
    then show "\<exists>c \<in> set t. \<not> is_whitespace c" by (cases t) auto
  qed
  then show ?thesis by (simp add: originalTerms_runs eq)
qed

text \<open>
  C8 (as amended). The raw query is split at the SPACE character, and the pieces that are
  empty or hold only whitespace are dropped: the terms are, in order, the maximal
  space-free runs of the query that hold a non-whitespace character. Every term is
  non-empty, holds no SPACE and holds a non-whitespace character. When the only whitespace
  of the query is SPACE, the terms are exactly its maximal non-whitespace runs.
\<close>

theorem originalTerms_space_runs:
  "originalTerms q = filter (\<lambda>t. \<exists>c \<in> set t. \<not> is_whitespace c) (runs (\<lambda>c. c = CHR '' '') q)
   \<and> (\<forall>t \<in> set (originalTerms q). t \<noteq> [] \<and> CHR '' '' \<notin> set t \<and> (\<exists>c \<in> set t. \<not> is_whitespace c))
   \<and> ((\<forall>c \<in> set q. is_whitespace c \<longrightarrow> c = CHR '' '') \<longrightarrow> originalTerms q = runs is_whitespace q)"
  using originalTerms_runs[of q] originalTerms_member[of _ q] originalTerms_only_spaces[of q]
  by blast

text \<open>The query \<^verbatim>\<open>cat  dog \<close>, with two spaces in the middle and one at the end.\<close>

theorem originalTerms_space_runs_witness:
  "originalTerms ''cat  dog '' = [''cat'', ''dog'']
   \<and> runs is_whitespace ''cat  dog '' = [''cat'', ''dog'']
   \<and> originalTerms ''cat  dog '' = runs is_whitespace ''cat  dog ''"
proof -
  have h: "\<forall>c \<in> set ''cat  dog ''. is_whitespace c \<longrightarrow> c = CHR '' ''"
    by (simp add: is_whitespace_def)
  have e: "originalTerms ''cat  dog '' = [''cat'', ''dog'']"
    by (simp add: originalTerms_def trim_def is_whitespace_def)
  from originalTerms_space_runs[of "''cat  dog ''"] h
  have "originalTerms ''cat  dog '' = runs is_whitespace ''cat  dog ''" by blast
  with e show ?thesis by simp
qed

text \<open>
  C8 as stated fails on a query with a TAB: \<^verbatim>\<open>a<TAB>b\<close> is one term, which holds a
  whitespace character, while its maximal non-whitespace runs are \<^verbatim>\<open>a\<close> and \<^verbatim>\<open>b\<close>.
\<close>

theorem originalTerms_tab_counterexample:
  "originalTerms [CHR ''a'', CHR 0x09, CHR ''b''] = [[CHR ''a'', CHR 0x09, CHR ''b'']]
   \<and> is_whitespace (CHR 0x09)
   \<and> runs is_whitespace [CHR ''a'', CHR 0x09, CHR ''b''] = [''a'', ''b'']"
  by (simp add: originalTerms_def trim_def is_whitespace_def runs.simps)

section \<open>Lemmas on rounding\<close>

lemma pow2_pos [simp]: "0 < pow2 k"
  by (simp add: pow2_def)

lemma pow2_neq0 [simp]: "pow2 k \<noteq> 0"
  by (simp add: pow2_def)

lemma abs_pow2 [simp]: "\<bar>pow2 k\<bar> = pow2 k"
  by (simp add: pow2_def)

lemma pow2_strict_mono: "j < k \<Longrightarrow> pow2 j < pow2 k"
  by (simp add: pow2_def)

lemma pow2_mono: "j \<le> k \<Longrightarrow> pow2 j \<le> pow2 k"
  by (simp add: pow2_def)

lemma pow2_add: "pow2 (j + k) = pow2 j * pow2 k"
  by (simp add: pow2_def powr_add)

lemma pow2_nat: "pow2 (int n) = 2 ^ n"
  by (simp add: pow2_def powr_realpow)

lemma round_even_of_int [simp]: "round_even (of_int n) = n"
  by (simp add: round_even_def)

lemma round_even_ge1: "1 \<le> r \<Longrightarrow> 1 \<le> round_even r"
  by (auto simp: round_even_def Let_def)

lemma round_even_le1: "r \<le> - 1 \<Longrightarrow> round_even r \<le> - 1"
  unfolding round_even_def Let_def by (auto; linarith)

lemma floor_log_le: "x > 0 \<Longrightarrow> pow2 \<lfloor>log 2 x\<rfloor> \<le> x"
  unfolding pow2_def
  by (metis floor_log_eq_powr_iff one_less_numeral_iff semiring_norm(76))

lemma floor_log_less: "x > 0 \<Longrightarrow> x < pow2 k \<Longrightarrow> \<lfloor>log 2 x\<rfloor> < k"
  unfolding pow2_def
  by (smt (verit) floor_less_iff less_log_iff log_less_cancel_iff of_int_less_iff powr_gt_zero log_powr_cancel)

lemma ulp_exponent_ge: "- 1074 \<le> ulp_exponent x"
  by (simp add: ulp_exponent_def)

lemma ulp_exponent_minus [simp]: "ulp_exponent (- z) = ulp_exponent z"
  by (simp add: ulp_exponent_def)

lemma scaled_ge1:
  assumes "pow2 (- 1074) \<le> z"
  shows "1 \<le> z / pow2 (ulp_exponent z)"
proof -
  have z: "0 < z" using assms pow2_pos[of "- 1074"] by linarith
  have "pow2 (ulp_exponent z) \<le> z"
  proof (cases "\<lfloor>log 2 \<bar>z\<bar>\<rfloor> - 52 \<le> - 1074")
    case True
    then have "ulp_exponent z = - 1074" by (simp add: ulp_exponent_def)
    then show ?thesis using assms by simp
  next
    case False
    then have u: "ulp_exponent z = \<lfloor>log 2 z\<rfloor> - 52" using z by (simp add: ulp_exponent_def)
    have "pow2 (\<lfloor>log 2 z\<rfloor> - 52) \<le> pow2 \<lfloor>log 2 z\<rfloor>"
      by (rule pow2_mono) simp
    then show ?thesis using floor_log_le[OF z] u by simp
  qed
  then show ?thesis by (simp add: le_divide_eq)
qed

lemma rnd_pos:
  assumes "pow2 (- 1074) \<le> z"
  shows "js_pos (rnd z)"
proof -
  have z: "0 < z" using assms pow2_pos[of "- 1074"] by linarith
  have "1 \<le> round_even (z / pow2 (ulp_exponent z))"
    by (rule round_even_ge1) (rule scaled_ge1[OF assms])
  then have "0 < real_of_int (round_even (z / pow2 (ulp_exponent z))) * pow2 (ulp_exponent z)"
    by simp
  then show ?thesis using z by (auto simp: rnd_def Let_def js_pos_def)
qed

lemma rnd_neg:
  assumes "z \<le> - pow2 (- 1074)"
  shows "js_neg (rnd z)"
proof -
  have z: "z < 0" using assms pow2_pos[of "- 1074"] by linarith
  have "1 \<le> (- z) / pow2 (ulp_exponent (- z))"
    by (rule scaled_ge1) (use assms in simp)
  then have "z / pow2 (ulp_exponent z) \<le> - 1" by simp
  then have "round_even (z / pow2 (ulp_exponent z)) \<le> - 1"
    by (rule round_even_le1)
  then have y: "real_of_int (round_even (z / pow2 (ulp_exponent z))) * pow2 (ulp_exponent z) < 0"
    by (simp add: mult_less_0_iff)
  then have "\<not> pow2 1024 \<le> real_of_int (round_even (z / pow2 (ulp_exponent z))) * pow2 (ulp_exponent z)"
    using pow2_pos[of 1024] by linarith
  then show ?thesis using z y by (auto simp: rnd_def Let_def js_neg_def)
qed

lemma rnd_grid:
  assumes a: "rnd x = Fin y"
  shows "grid y"
proof (cases "x = 0")
  case True
  then have "y = 0" using a by (simp add: rnd_def)
  then show ?thesis by (auto simp: grid_def intro: exI[of _ 0])
next
  case False
  define u where "u = ulp_exponent x"
  define m where "m = round_even (x / pow2 u)"
  have y: "y = of_int m * pow2 u"
    using a False by (auto simp: rnd_def Let_def u_def m_def split: if_splits)
  have "0 \<le> u + 1074" using ulp_exponent_ge[of x] by (simp add: u_def)
  then obtain k :: nat where k: "u + 1074 = int k" using nonneg_int_cases by blast
  have "pow2 u = pow2 ((u + 1074) + (- 1074))" by simp
  also have "\<dots> = of_int (2 ^ k) * pow2 (- 1074)"
    by (simp only: pow2_add k pow2_nat) simp
  finally have "y = of_int (m * 2 ^ k) * pow2 (- 1074)" using y by simp
  then show ?thesis unfolding grid_def by blast
qed


lemma rnd_representable:
  assumes x: "x = of_int m * pow2 k" and m: "\<bar>m\<bar> < 2 ^ 53" and k: "- 1074 \<le> k"
    and b: "\<bar>x\<bar> < pow2 1024"
  shows "rnd x = Fin x"
proof (cases "x = 0")
  case True
  then show ?thesis by (simp add: rnd_def)
next
  case False
  define u where "u = ulp_exponent x"
  have ax: "0 < \<bar>x\<bar>" using False by simp
  have "\<bar>x\<bar> = of_int \<bar>m\<bar> * pow2 k" using x by (simp add: abs_mult)
  also have "\<dots> < 2 ^ 53 * pow2 k"
  proof (rule mult_strict_right_mono)
    show "real_of_int \<bar>m\<bar> < 2 ^ 53" using m by (metis of_int_less_numeral_power_cancel_iff)
  qed simp
  also have "\<dots> = pow2 (53 + k)" using pow2_nat[of 53] by (simp add: pow2_add)
  finally have "\<lfloor>log 2 \<bar>x\<bar>\<rfloor> < 53 + k" by (rule floor_log_less[OF ax])
  then have uk: "u \<le> k" using k by (simp add: u_def ulp_exponent_def)
  then obtain j :: nat where j: "k - u = int j" using nonneg_int_cases[of "k - u"] by auto
  have "pow2 k = pow2 ((k - u) + u)" by simp
  also have "\<dots> = 2 ^ j * pow2 u" by (simp only: pow2_add j pow2_nat)
  finally have xu: "x = of_int (m * 2 ^ j) * pow2 u" using x by simp
  then have "x / pow2 u = of_int (m * 2 ^ j)" by simp
  then have "of_int (round_even (x / pow2 u)) * pow2 u = x"
    using xu by (simp only: round_even_of_int)
  then show ?thesis using False b by (auto simp: rnd_def Let_def u_def)
qed

lemma rnd_int: "\<bar>n\<bar> < 2 ^ 53 \<Longrightarrow> rnd (of_int n) = Fin (of_int n)"
proof -
  assume n: "\<bar>n\<bar> < 2 ^ 53"
  have "\<bar>real_of_int n\<bar> < 2 ^ 53" using n by (metis of_int_abs of_int_less_numeral_power_cancel_iff)
  also have "\<dots> \<le> pow2 1024" using pow2_nat[of 53] pow2_mono[of 53 1024] by simp
  finally show ?thesis
    using rnd_representable[of "of_int n" n 0] n by (simp add: pow2_def)
qed

lemma rnd_1 [simp]: "rnd 1 = Fin 1"
  using rnd_int[of 1] by simp

lemma rnd_half: "rnd (1 / 2) = Fin (1 / 2)"
proof -
  have "pow2 (- 1) * pow2 1 = pow2 0" by (simp only: pow2_add[symmetric]) simp
  moreover have "pow2 1 = 2" "pow2 0 = 1" using pow2_nat[of 1] pow2_nat[of 0] by simp_all
  ultimately have h: "pow2 (- 1) = 1 / 2" by simp
  have "pow2 (- 1) < pow2 1024" by (rule pow2_strict_mono) simp
  then have "\<bar>1 / 2 :: real\<bar> < pow2 1024" using h by simp
  moreover have "(1 / 2 :: real) = of_int 1 * pow2 (- 1)" using h by simp
  moreover have "\<bar>1 :: int\<bar> < 2 ^ 53" by simp
  ultimately show ?thesis using rnd_representable[of "1 / 2" 1 "- 1"] by linarith
qed

section \<open>Lemmas on the comparator\<close>

lemma js_neg_not_pos: "js_neg v \<Longrightarrow> \<not> js_pos v"
  by (auto simp: js_neg_def js_pos_def split: jsnum.splits)

lemma rnd_0 [simp]: "rnd 0 = Fin 0"
  by (simp add: rnd_def)

lemma rnd_not_NaN [simp]: "rnd z \<noteq> NaN"
  by (simp add: rnd_def Let_def)

lemma pow2_nonneg [simp]: "0 \<le> pow2 k"
  by (simp add: pow2_def)

lemma js_pos_simps [simp]:
  "js_pos (Fin y) = (0 < y)" "js_pos PInf" "\<not> js_pos NInf" "\<not> js_pos NaN"
  by (simp_all add: js_pos_def)

lemma is_double_rnd: "is_double (rnd z)"
  using rnd_grid[of z] by (cases "rnd z") (auto simp: is_double_def)

lemma grid_diff_pos:
  assumes "grid x" "grid y" "x < y"
  shows "pow2 (- 1074) \<le> y - x"
proof -
  obtain m n :: int where mn: "x = of_int m * pow2 (- 1074)" "y = of_int n * pow2 (- 1074)"
    using assms(1,2) unfolding grid_def by blast
  have "m < n"
  proof (rule ccontr)
    assume "\<not> m < n"
    then have "real_of_int n \<le> real_of_int m" by simp
    then have "y \<le> x" unfolding mn by (rule mult_right_mono) simp
    then show False using assms(3) by simp
  qed
  then have "1 \<le> real_of_int (n - m)" by linarith
  then have "1 * pow2 (- 1074) \<le> real_of_int (n - m) * pow2 (- 1074)"
    by (rule mult_right_mono) simp
  then show ?thesis by (simp add: mn algebra_simps)
qed

lemma sub_pos_fin:
  assumes "grid x" "grid y"
  shows "js_pos (rnd (y - x)) \<longleftrightarrow> x < y"
proof (cases x y rule: linorder_cases)
  case less
  then show ?thesis using rnd_pos[OF grid_diff_pos[OF assms less]] by simp
next
  case equal
  then show ?thesis by simp
next
  case greater
  have "x - y \<ge> pow2 (- 1074)" by (rule grid_diff_pos[OF assms(2,1) greater])
  then have "js_neg (rnd (y - x))" by (intro rnd_neg) simp
  then show ?thesis using greater js_neg_not_pos by auto
qed

lemma cmp_pos_iff:
  "is_double u \<Longrightarrow> is_double v \<Longrightarrow> js_pos (js_sub v u) \<longleftrightarrow> js_less u v"
  by (cases u; cases v) (auto simp: is_double_def sub_pos_fin)

lemma js_less_irrefl [simp]: "\<not> js_less v v"
  by (cases v) auto

lemma js_sub_self_not_pos [simp]: "\<not> js_pos (js_sub v v)"
  by (cases v) auto

lemma js_less_asym: "js_less u v \<Longrightarrow> \<not> js_less v u"
  by (cases u; cases v) auto

lemma js_less_negtrans:
  "is_double a \<Longrightarrow> is_double b \<Longrightarrow> is_double c \<Longrightarrow>
   \<not> js_less a b \<Longrightarrow> \<not> js_less b c \<Longrightarrow> \<not> js_less a c"
  by (cases a; cases b; cases c) (auto simp: is_double_def)

lemma orderly_cmp:
  assumes "orderly vs" "u \<in> vs" "v \<in> vs"
  shows "js_pos (js_sub v u) \<longleftrightarrow> js_less u v"
  using assms unfolding orderly_def
proof (elim disjE)
  assume "\<forall>v \<in> vs. is_double v"
  then show ?thesis using assms(2,3) cmp_pos_iff by blast
next
  assume "\<forall>v \<in> vs. v = Fin 0 \<or> v = NaN"
  then have "(u = Fin 0 \<or> u = NaN) \<and> (v = Fin 0 \<or> v = NaN)" using assms(2,3) by blast
  then show ?thesis by auto
qed

lemma orderly_negtrans:
  assumes "orderly vs" "a \<in> vs" "b \<in> vs" "c \<in> vs" "\<not> js_less a b" "\<not> js_less b c"
  shows "\<not> js_less a c"
  using assms unfolding orderly_def
proof (elim disjE)
  assume "\<forall>v \<in> vs. is_double v"
  then show ?thesis using assms(2-) js_less_negtrans by blast
next
  assume "\<forall>v \<in> vs. v = Fin 0 \<or> v = NaN"
  then have "(a = Fin 0 \<or> a = NaN) \<and> (c = Fin 0 \<or> c = NaN)" using assms(2,4) by blast
  then show ?thesis by auto
qed

lemma orderly_subset: "orderly vs \<Longrightarrow> us \<subseteq> vs \<Longrightarrow> orderly us"
  unfolding orderly_def by blast

section \<open>Lemmas on sorting\<close>

lemma mset_insert_by: "mset (insert_by cmp x ys) = add_mset x (mset ys)"
  by (induction ys) auto

lemma mset_sort_by: "mset (sort_by cmp xs) = mset xs"
  by (induction xs) (auto simp: sort_by_def mset_insert_by)

lemma set_insert_by: "set (insert_by cmp x ys) = insert x (set ys)"
  by (induction ys) auto

lemma set_sort_by: "set (sort_by cmp xs) = set xs"
  using mset_sort_by[of cmp xs] by (metis set_mset_mset)

lemma sort_by_Cons: "sort_by cmp (x # xs) = insert_by cmp x (sort_by cmp xs)"
  by (simp add: sort_by_def)

lemma sorted_insert_by:
  assumes "orderly (normalized_score ` insert x (set ys))" "sorted_wrt not_below ys"
  shows "sorted_wrt not_below (insert_by by_normalized_score x ys)"
  using assms
proof (induction ys)
  case Nil
  then show ?case by simp
next
  case (Cons y ys)
  let ?vs = "normalized_score ` insert x (set (y # ys))"
  have o: "orderly ?vs" by (rule Cons.prems(1))
  have c: "js_pos (by_normalized_score x y) \<longleftrightarrow> js_less (normalized_score x) (normalized_score y)"
    unfolding by_normalized_score_def by (rule orderly_cmp[OF o]) auto
  show ?case
  proof (cases "js_pos (by_normalized_score x y)")
    case True
    have "orderly (normalized_score ` insert x (set ys))"
      by (rule orderly_subset[OF o]) auto
    then have "sorted_wrt not_below (insert_by by_normalized_score x ys)"
      using Cons.IH Cons.prems(2) by simp
    moreover have "not_below y x" using True c js_less_asym by (auto simp: not_below_def)
    ultimately show ?thesis using True Cons.prems(2) by (auto simp: set_insert_by)
  next
    case False
    then have xy: "not_below x y" using c by (simp add: not_below_def)
    have "not_below x z" if "z \<in> set ys" for z
    proof -
      have "not_below y z" using Cons.prems(2) that by simp
      then show ?thesis
        using xy orderly_negtrans[OF o, of "normalized_score x" "normalized_score y" "normalized_score z"] that
        by (auto simp: not_below_def)
    qed
    then show ?thesis using False xy Cons.prems(2) by auto
  qed
qed

lemma sorted_sort_by:
  "orderly (normalized_score ` set xs) \<Longrightarrow> sorted_wrt not_below (sort_by by_normalized_score xs)"
proof (induction xs)
  case Nil
  then show ?case by (simp add: sort_by_def)
next
  case (Cons x xs)
  have "orderly (normalized_score ` set xs)"
    by (rule orderly_subset[OF Cons.prems]) auto
  then have "sorted_wrt not_below (sort_by by_normalized_score xs)" by (rule Cons.IH)
  moreover have "orderly (normalized_score ` insert x (set (sort_by by_normalized_score xs)))"
    using Cons.prems by (simp add: set_sort_by)
  ultimately show ?case by (simp add: sort_by_Cons sorted_insert_by)
qed

lemma filter_insert_by:
  "filter (\<lambda>r. normalized_score r = k) (insert_by by_normalized_score x ys) =
   filter (\<lambda>r. normalized_score r = k) (x # ys)"
proof (induction ys)
  case Nil
  then show ?case by simp
next
  case (Cons y ys)
  have "normalized_score x \<noteq> normalized_score y" if "js_pos (by_normalized_score x y)"
    using that js_sub_self_not_pos[of "normalized_score y"] by (auto simp: by_normalized_score_def)
  then show ?case using Cons by auto
qed

lemma sort_by_stable:
  "filter (\<lambda>r. normalized_score r = k) (sort_by by_normalized_score xs) =
   filter (\<lambda>r. normalized_score r = k) xs"
  by (induction xs) (simp_all add: sort_by_Cons filter_insert_by, simp add: sort_by_def)

lemma sort_by_sorted_id:
  assumes "orderly (normalized_score ` set xs)" "sorted_wrt not_below xs"
  shows "sort_by by_normalized_score xs = xs"
  using assms
proof (induction xs)
  case Nil
  then show ?case by (simp add: sort_by_def)
next
  case (Cons x xs)
  have "orderly (normalized_score ` set xs)" by (rule orderly_subset[OF Cons.prems(1)]) auto
  then have s: "sort_by by_normalized_score xs = xs" using Cons.IH Cons.prems(2) by simp
  have "insert_by by_normalized_score x xs = x # xs"
  proof (cases xs)
    case Nil
    then show ?thesis by simp
  next
    case (Cons y ys)
    have "js_pos (by_normalized_score x y) \<longleftrightarrow> js_less (normalized_score x) (normalized_score y)"
      unfolding by_normalized_score_def by (rule orderly_cmp[OF Cons.prems(1)]) (auto simp: Cons)
    moreover have "not_below x y" using Cons.prems(2) Cons by simp
    ultimately show ?thesis using Cons by (simp add: not_below_def)
  qed
  then show ?case by (simp add: sort_by_Cons s)
qed

section \<open>Lemmas on normalization and records\<close>

lemma js_max_PInf_right: "a \<noteq> NaN \<Longrightarrow> js_max a PInf = PInf"
  by (cases a) simp_all

lemma foldr_js_max_cases:
  assumes "NaN \<notin> set os"
  shows "(PInf \<in> set os \<and> foldr js_max os (Fin 0) = PInf)
       \<or> (PInf \<notin> set os \<and> (\<exists>m \<ge> 0. foldr js_max os (Fin 0) = Fin m))"
  using assms
proof (induction os)
  case Nil
  then show ?case by simp
next
  case (Cons a os)
  have a: "a \<noteq> NaN" using Cons.prems by auto
  have "NaN \<notin> set os" using Cons.prems by simp
  then consider (inf) "PInf \<in> set os" "foldr js_max os (Fin 0) = PInf"
    | (fin) m where "PInf \<notin> set os" "0 \<le> m" "foldr js_max os (Fin 0) = Fin m"
    using Cons.IH by blast
  then show ?case
  proof cases
    case inf
    then show ?thesis using js_max_PInf_right[OF a] by simp
  next
    case fin
    show ?thesis
    proof (cases a)
      case (Fin x)
      have "0 \<le> max x m" using fin(2) by simp
      then show ?thesis using fin Fin by simp
    next
      case PInf
      then show ?thesis using fin by simp
    next
      case NInf
      then show ?thesis using fin by simp
    next
      case NaN
      then show ?thesis using a by simp
    qed
  qed
qed

lemma foldr_js_max_Max:
  "foldr js_max (map Fin xs) (Fin 0) = Fin (Max (insert 0 (set xs)))"
proof (induction xs)
  case Nil
  then show ?case by simp
next
  case (Cons x xs)
  have "Max (insert 0 (set (x # xs))) = Max (insert x (insert 0 (set xs)))"
    by (simp add: insert_commute)
  also have "\<dots> = max x (Max (insert 0 (set xs)))"
    by (rule Max_insert) auto
  finally show ?case using Cons by simp
qed

lemma normalize_Nil [simp]: "normalize [] = []"
  by (simp add: normalize_def)

lemma normalized_values:
  "xs \<noteq> [] \<Longrightarrow> normalized_score ` set (normalize xs) =
     (\<lambda>r. js_div (original_relevance_score r) (divisor xs)) ` set xs"
  by (auto simp: normalize_def image_iff)

lemma orderly_normalize:
  assumes "\<forall>r \<in> set xs. original_relevance_score r \<noteq> NaN"
  shows "orderly (normalized_score ` set (normalize xs))"
proof (cases "xs = []")
  case True
  then show ?thesis by (simp add: orderly_def)
next
  case False
  have n: "NaN \<notin> set (map original_relevance_score xs)" using assms by auto
  from foldr_js_max_cases[OF n] show ?thesis
  proof (elim disjE conjE exE)
    assume "foldr js_max (map original_relevance_score xs) (Fin 0) = PInf"
    then have d: "divisor xs = PInf" by (simp add: divisor_def maxScore_def)
    have "js_div (original_relevance_score r) PInf = Fin 0 \<or> js_div (original_relevance_score r) PInf = NaN"
      for r by (cases "original_relevance_score r") auto
    then have "\<forall>v \<in> normalized_score ` set (normalize xs). v = Fin 0 \<or> v = NaN"
      by (simp only: normalized_values[OF False] d ball_simps(9)) blast
    then show ?thesis by (simp only: orderly_def) simp
  next
    fix m :: real
    assume p: "PInf \<notin> set (map original_relevance_score xs)"
      and m: "foldr js_max (map original_relevance_score xs) (Fin 0) = Fin m"
    obtain d where d: "divisor xs = Fin d" "0 < d"
      using m by (cases "0 < m") (auto simp: divisor_def maxScore_def)
    have "is_double (js_div (original_relevance_score r) (Fin d))" if "r \<in> set xs" for r
    proof (cases "original_relevance_score r")
      case (Fin x)
      then show ?thesis using d(2) by (simp add: is_double_rnd)
    next
      case PInf
      then show ?thesis using p that by force
    next
      case NInf
      then show ?thesis using d(2) by (simp add: is_double_def)
    next
      case NaN
      then show ?thesis using assms that by auto
    qed
    then have "\<forall>v \<in> normalized_score ` set (normalize xs). is_double v"
      by (simp only: normalized_values[OF False] d(1) ball_simps(9)) blast
    then show ?thesis by (simp only: orderly_def) simp
  qed
qed

lemma or_num_not_NaN [simp]: "or_num a (Fin 0) \<noteq> NaN"
  by (auto simp: or_num_def split: option.splits)

lemma map_entries_set:
  "map_entries f es = Inr rs \<Longrightarrow> r \<in> set rs \<Longrightarrow> \<exists>e. r = f e"
  by (induction f es arbitrary: rs rule: map_entries.induct) (auto split: sum.splits)

lemma map_entries_Some [simp]: "map_entries f (map Some es) = Inr (map f es)"
  by (induction es) auto

lemma europeanaItem_not_NaN [simp]: "original_relevance_score (europeanaItem e) \<noteq> NaN"
  by (simp add: europeanaItem_def)

lemma plosItem_not_NaN [simp]: "original_relevance_score (plosItem d) \<noteq> NaN"
  by (simp add: plosItem_def)

lemma europeanaItems_cases:
  assumes "europeanaItems e = Inr rs"
  shows "rs = [] \<or> (\<exists>es. map_entries europeanaItem es = Inr rs)"
proof (cases e)
  case (Rejected reason)
  then show ?thesis using assms by (simp add: europeanaItems_def)
next
  case (Fulfilled data)
  show ?thesis
  proof (cases data)
    case None
    then show ?thesis using assms Fulfilled by (simp add: europeanaItems_def)
  next
    case (Some d)
    then show ?thesis using assms Fulfilled
      by (cases "items d") (auto simp add: europeanaItems_def)
  qed
qed

lemma plosItems_cases:
  assumes "plosItems p = Inr rs"
  shows "rs = [] \<or> (\<exists>ds. map_entries plosItem ds = Inr rs)"
proof (cases p)
  case (Rejected reason)
  then show ?thesis using assms by (simp add: plosItems_def)
next
  case (Fulfilled data)
  show ?thesis
  proof (cases data)
    case None
    then show ?thesis using assms Fulfilled by (simp add: plosItems_def)
  next
    case (Some d)
    show ?thesis
    proof (cases "response d")
      case None
      then show ?thesis using assms Fulfilled Some by (simp add: plosItems_def)
    next
      case (Some r)
      then show ?thesis using assms Fulfilled \<open>data = Some d\<close>
        by (cases "docs r") (auto simp add: plosItems_def)
    qed
  qed
qed

lemma europeanaItems_not_NaN:
  "europeanaItems e = Inr rs \<Longrightarrow> r \<in> set rs \<Longrightarrow> original_relevance_score r \<noteq> NaN"
proof -
  assume a: "europeanaItems e = Inr rs" "r \<in> set rs"
  then obtain es where "map_entries europeanaItem es = Inr rs" using europeanaItems_cases[OF a(1)] by auto
  from map_entries_set[OF this a(2)] obtain x where "r = europeanaItem x" by blast
  then show ?thesis by simp
qed

lemma plosItems_not_NaN:
  "plosItems p = Inr rs \<Longrightarrow> r \<in> set rs \<Longrightarrow> original_relevance_score r \<noteq> NaN"
proof -
  assume a: "plosItems p = Inr rs" "r \<in> set rs"
  then obtain es where "map_entries plosItem es = Inr rs" using plosItems_cases[OF a(1)] by auto
  from map_entries_set[OF this a(2)] obtain x where "r = plosItem x" by blast
  then show ?thesis by simp
qed

lemma collected_not_NaN:
  assumes "collected w q = Inr rs" "r \<in> set rs"
  shows "original_relevance_score r \<noteq> NaN"
proof -
  obtain es ps where e: "europeanaItems (europeana w q) = Inr es"
    and p: "plosItems (plos w q) = Inr ps" and rs: "rs = es @ ps"
    using assms(1) by (auto simp: collected_def split: sum.splits)
  then show ?thesis using assms(2) europeanaItems_not_NaN[OF e] plosItems_not_NaN[OF p] by auto
qed

section \<open>The handler, case by case\<close>

lemma originalTerms_Nil [simp]: "originalTerms [] = []"
  by (simp add: originalTerms_def trim_def)

lemma length_allSynonyms [simp]: "length (allSynonyms w terms) = length terms"
  by (simp add: allSynonyms_def)

lemma join_Cons_not_Nil: "x \<noteq> [] \<Longrightarrow> join sep (x # xs) \<noteq> []"
  by (cases xs) auto

lemma queryGroup_not_Nil: "term \<noteq> [] \<Longrightarrow> queryGroup term synonyms \<noteq> []"
  by (simp add: queryGroup_def Let_def)

lemma queryString_Nil [simp]: "queryString [] syns = []"
  by (simp add: queryString_def queryGroups_def)

lemma queryString_not_Nil:
  assumes "terms \<noteq> []" "hd terms \<noteq> []" "length syns = length terms"
  shows "queryString terms syns \<noteq> []"
proof -
  obtain t ts where t: "terms = t # ts" using assms(1) by (cases terms) auto
  then obtain s ss where s: "syns = s # ss" using assms(3) by (cases syns) auto
  have "queryGroups terms syns = queryGroup t s # map2 queryGroup ts ss"
    using queryGroups_map2[OF assms(3)] t s by simp
  then show ?thesis
    using assms(2) t by (simp add: queryString_def join_Cons_not_Nil queryGroup_not_Nil)
qed

lemma searchQuery_not_Nil: "originalTerms q \<noteq> [] \<Longrightarrow> searchQuery w q \<noteq> []"
  unfolding searchQuery_def
  by (rule queryString_not_Nil) (use originalTerms_member[of "hd (originalTerms q)" q] in auto)

lemma handler_terms:
  assumes "originalTerms q \<noteq> []"
  shows "handler w (Some q) =
     \<lparr>outbound = map (\<lambda>term. DataMuseGet term 5) (originalTerms q)
                   @ [EuropeanaGet (searchQuery w q) 20, PlosGet (searchQuery w q) 20],
      answer = (case collected w (searchQuery w q) of
                  Inl err \<Rightarrow> Uncaught err
                | Inr allResults \<Rightarrow> Json (sort_by by_normalized_score (normalize allResults)))\<rparr>"
proof -
  have "q \<noteq> []" using assms by auto
  moreover have "queryString (originalTerms q) (allSynonyms w (originalTerms q)) \<noteq> []"
    using searchQuery_not_Nil[OF assms, of w] by (simp add: searchQuery_def)
  ultimately show ?thesis by (simp add: handler_def Let_def searchQuery_def)
qed

lemma handler_no_terms:
  "originalTerms q = [] \<Longrightarrow> q \<noteq> [] \<Longrightarrow> handler w (Some q) = \<lparr>outbound = [], answer = Json []\<rparr>"
  by (simp add: handler_def Let_def)

lemma handler_rejects:
  "handler w None = \<lparr>outbound = [], answer = Status400 q_requerido\<rparr>"
  "handler w (Some []) = \<lparr>outbound = [], answer = Status400 q_requerido\<rparr>"
  by (simp_all add: handler_def)

lemma rnd_5 [simp]: "rnd 5 = Fin 5"
  using rnd_int[of 5] by simp

lemma rnd_10 [simp]: "rnd 10 = Fin 10"
  using rnd_int[of 10] by simp

lemma terms_cat: "originalTerms ''cat'' = [''cat'']"
  by (simp add: originalTerms_def trim_def is_whitespace_def)

lemma c_cat: "collected plos_half q =
  Inr [\<lparr>title = ''A'', source = ''PLOS'', original_relevance_score = Fin (1 / 2), link = ''#'',
        normalized_score = Fin 0\<rparr>]"
  by (simp add: collected_def plos_half_def offline_def europeanaItems_def plosItems_def
      plosItem_def or_str_def or_num_def rnd_half)

lemma maxScore_range:
  "maxScore xs = NaN \<or> maxScore xs = PInf \<or> (\<exists>m \<ge> 0. maxScore xs = Fin m)"
proof (cases "NaN \<in> set (map original_relevance_score xs)")
  case True
  have "NaN \<in> set os \<Longrightarrow> foldr js_max os (Fin 0) = NaN" for os
  proof (induction os)
    case Nil
    then show ?case by simp
  next
    case (Cons a os)
    show ?case
    proof (cases "a = NaN")
      case True
      then show ?thesis by simp
    next
      case False
      then have "foldr js_max os (Fin 0) = NaN" using Cons by simp
      then show ?thesis by (cases a) simp_all
    qed
  qed
  then show ?thesis using True by (simp add: maxScore_def)
next
  case False
  from foldr_js_max_cases[OF False] show ?thesis by (auto simp: maxScore_def)
qed

section \<open>Normalization\<close>




section \<open>Ranking\<close>

lemma rnd_minus_half: "rnd (- (1 / 2)) = Fin (- (1 / 2))"
proof -
  have "pow2 (- 1) * pow2 1 = pow2 0" by (simp only: pow2_add[symmetric]) simp
  moreover have "pow2 1 = 2" "pow2 0 = 1" using pow2_nat[of 1] pow2_nat[of 0] by simp_all
  ultimately have h: "pow2 (- 1) = 1 / 2" by simp
  have "pow2 (- 1) < pow2 1024" by (rule pow2_strict_mono) simp
  then have "\<bar>- (1 / 2) :: real\<bar> < pow2 1024" using h by simp
  moreover have "(- (1 / 2) :: real) = of_int (- 1) * pow2 (- 1)" using h by simp
  moreover have "\<bar>- 1 :: int\<bar> < 2 ^ 53" by simp
  ultimately show ?thesis using rnd_representable[of "- (1 / 2)" "- 1" "- 1"] by linarith
qed

lemma terms_cat_dog: "originalTerms ''cat dog'' = [''cat'', ''dog'']"
  by (simp add: originalTerms_def trim_def is_whitespace_def)

lemma upt_2: "[0..<Suc (Suc 0)] = [0, Suc 0]"
  by (simp add: upt_rec)

lemma demo_synonyms: "allSynonyms demo [''cat'', ''dog''] = [[''feline''], []]"
  by (simp add: allSynonyms_def demo_def expandQuery_def expandQuery_try_def upt_2)

lemma demo_query: "searchQuery demo ''cat dog'' = ''(cat OR feline) AND dog''"
  by (simp add: searchQuery_def terms_cat_dog demo_synonyms queryString_def queryGroups_def
      queryGroup_def new_Set_def set_add_def upt_2)

lemma demo_collected: "collected demo q = Inr
  [\<lparr>title = ''E1'', source = ''Europeana'', original_relevance_score = Fin 5, link = ''http://e/1'',
     normalized_score = Fin 0\<rparr>,
   \<lparr>title = ''P1'', source = ''PLOS'', original_relevance_score = Fin 10,
     link = ''https://journals.plos.org/plosone/article?id=p1'', normalized_score = Fin 0\<rparr>,
   \<lparr>title = Sin_Titulo, source = ''PLOS'', original_relevance_score = Fin 5, link = ''#'',
     normalized_score = Fin 0\<rparr>]"
  by (simp add: collected_def demo_def europeanaItems_def plosItems_def europeanaItem_def
      plosItem_def or_str_def or_num_def)

lemma demo_ranked: "sort_by by_normalized_score (normalize
  [\<lparr>title = ''E1'', source = ''Europeana'', original_relevance_score = Fin 5, link = ''http://e/1'',
     normalized_score = Fin 0\<rparr>,
   \<lparr>title = ''P1'', source = ''PLOS'', original_relevance_score = Fin 10,
     link = ''https://journals.plos.org/plosone/article?id=p1'', normalized_score = Fin 0\<rparr>,
   \<lparr>title = Sin_Titulo, source = ''PLOS'', original_relevance_score = Fin 5, link = ''#'',
     normalized_score = Fin 0\<rparr>]) =
  [\<lparr>title = ''P1'', source = ''PLOS'', original_relevance_score = Fin 10,
     link = ''https://journals.plos.org/plosone/article?id=p1'', normalized_score = Fin 1\<rparr>,
   \<lparr>title = ''E1'', source = ''Europeana'', original_relevance_score = Fin 5, link = ''http://e/1'',
     normalized_score = Fin (1 / 2)\<rparr>,
   \<lparr>title = Sin_Titulo, source = ''PLOS'', original_relevance_score = Fin 5, link = ''#'',
     normalized_score = Fin (1 / 2)\<rparr>]"
  by (simp add: normalize_def divisor_def maxScore_def sort_by_def by_normalized_score_def
      rnd_half rnd_minus_half)

lemma collected_parts:
  "collected w q = Inr rs \<Longrightarrow>
   \<exists>es ps. europeanaItems (europeana w q) = Inr es \<and> plosItems (plos w q) = Inr ps \<and> rs = es @ ps"
  by (auto simp: collected_def split: sum.splits)



section \<open>Short circuit, rejection and uncaught errors\<close>

text \<open>
  C5 (as amended). For every raw query whose splitting yields no term, no outbound
  request is made; the response is the empty result list when the raw query is not the
  empty string, and the rejection with status 400 when it is.
\<close>

theorem no_terms_no_requests:
  assumes "originalTerms userQuery = []"
  shows "outbound (handler w (Some userQuery)) = []
       \<and> answer (handler w (Some userQuery)) = (if userQuery = [] then Status400 q_requerido else Json [])"
  using assms handler_no_terms[of userQuery w] by (cases "userQuery = []") (simp_all add: handler_rejects)

text \<open>A query of a space, a TAB and a space.\<close>

theorem no_terms_no_requests_witness:
  "originalTerms [CHR '' '', CHR 0x09, CHR '' ''] = []
   \<and> outbound (handler demo (Some [CHR '' '', CHR 0x09, CHR '' ''])) = []
   \<and> answer (handler demo (Some [CHR '' '', CHR 0x09, CHR '' ''])) = Json []"
proof -
  have h: "originalTerms [CHR '' '', CHR 0x09, CHR '' ''] = []"
    by (simp add: originalTerms_def trim_def is_whitespace_def)
  from no_terms_no_requests[OF h, of demo] show ?thesis by (simp add: h)
qed

text \<open>
  C5 as stated fails on the empty raw query: its splitting yields no term, and the
  response is the rejection with status 400, not an empty result list.
\<close>

theorem empty_query_counterexample:
  "originalTerms [] = [] \<and> answer (handler demo (Some [])) = Status400 q_requerido
   \<and> answer (handler demo (Some [])) \<noteq> Json []"
  by (simp add: handler_rejects)

lemma originalTerms_blank:
  assumes "\<forall>c \<in> set s. is_whitespace c"
  shows "originalTerms s = []"
proof -
  have "\<not> (\<exists>c \<in> set t. \<not> is_whitespace c)" if "t \<in> set (runs (\<lambda>c. c = CHR '' '') s)" for t
    using runs_member[OF that] assms by blast
  then show ?thesis by (simp add: originalTerms_runs filter_empty_conv)
qed

lemma handler_answers:
  assumes "s \<noteq> []"
  shows "(\<exists>results. answer (handler w (Some s)) = Json results)
       \<or> (\<exists>e. collected w (searchQuery w s) = Inl e \<and> answer (handler w (Some s)) = Uncaught e)"
proof (cases "originalTerms s = []")
  case True
  then show ?thesis using assms by (simp add: handler_no_terms)
next
  case False
  then show ?thesis
    by (cases "collected w (searchQuery w s)") (simp_all add: handler_terms)
qed

lemma handler_status400_iff:
  "(\<exists>message. answer (handler w q) = Status400 message) \<longleftrightarrow> (q = None \<or> q = Some [])"
proof (cases q)
  case None
  then show ?thesis by (simp add: handler_rejects)
next
  case (Some s)
  show ?thesis
  proof (cases "s = []")
    case True
    then show ?thesis using Some by (simp add: handler_rejects)
  next
    case False
    then show ?thesis using Some handler_answers[OF False, of w] by auto
  qed
qed

lemma null_doc_collected: "collected null_doc q = Inl TypeError"
  by (simp add: collected_def null_doc_def offline_def europeanaItems_def plosItems_def)

text \<open>
  C10. The handler answers with the error of status 400 exactly when the parameter is
  absent or the empty string (lemma \<open>handler_status400_iff\<close>), but not every other raw
  query gets a result list: for the query \<^verbatim>\<open>cat\<close>, when the response of PLOS has
  \<^verbatim>\<open>docs\<close> equal to \<^verbatim>\<open>[null]\<close>, the handler raises a TypeError that nothing catches, and
  sends neither the error of status 400 nor a result list.
\<close>

theorem uncaught_null_doc:
  "answer (handler null_doc (Some ''cat'')) = Uncaught TypeError"
proof -
  have t: "originalTerms ''cat'' \<noteq> []" by (simp add: terms_cat)
  show ?thesis by (simp add: handler_terms[OF t] null_doc_collected)
qed

section \<open>Query string, failures and records\<close>

text \<open>
  C2. For terms with one list of synonyms each, the query string the code builds is the
  one the specification words: for each term in order, the group of the term followed
  by its synonyms, deduplicated keeping first occurrences, rendered as the bare member
  when it has one member and as the members joined by OR in parentheses otherwise, the
  groups joined by AND. So is the query string the handler sends to the providers. The
  deduplicated group has no duplicates, the same members, and the term at its head.
\<close>

theorem queryString_refines_spec:
  assumes "length allSyn = length terms"
  shows "queryString terms allSyn = spec_queryString terms allSyn
       \<and> searchQuery w userQuery =
           spec_queryString (originalTerms userQuery) (allSynonyms w (originalTerms userQuery))
       \<and> distinct (dedup_first (term # synonyms))
       \<and> set (dedup_first (term # synonyms)) = insert term (set synonyms)
       \<and> hd (dedup_first (term # synonyms)) = term"
proof -
  have "queryGroups terms allSyn = map2 (\<lambda>term synonyms. render_group (dedup_first (term # synonyms))) terms allSyn"
    using queryGroups_map2[OF assms] by (simp add: queryGroup_render)
  then have "queryString terms allSyn = spec_queryString terms allSyn"
    by (simp add: queryString_def spec_queryString_def)
  moreover have "searchQuery w userQuery =
      spec_queryString (originalTerms userQuery) (allSynonyms w (originalTerms userQuery))"
    by (simp add: searchQuery_def queryString_def spec_queryString_def queryGroups_map2 queryGroup_render)
  ultimately show ?thesis
    using distinct_dedup_first[of "term # synonyms"] set_dedup_first[of "term # synonyms"] by simp
qed

text \<open>
  The scenario of the specification, and a term whose synonyms repeat the term and each
  other.
\<close>

theorem queryString_refines_spec_witness:
  "length [[''feline''], []] = length [''cat'', ''dog'']
   \<and> queryString [''cat'', ''dog''] [[''feline''], []] = ''(cat OR feline) AND dog''
   \<and> queryString [''cat''] [[''feline'', ''cat'', ''feline'', ''kitty'']] = ''(cat OR feline OR kitty)''"
proof -
  have h: "length [[''feline''], []] = length [''cat'', ''dog'']" by simp
  have h2: "length [[''feline'', ''cat'', ''feline'', ''kitty'']] = length [''cat'']" by simp
  have 1: "queryString [''cat'', ''dog''] [[''feline''], []] = spec_queryString [''cat'', ''dog''] [[''feline''], []]"
    by (rule queryString_refines_spec[OF h, THEN conjunct1])
  have 2: "queryString [''cat''] [[''feline'', ''cat'', ''feline'', ''kitty'']]
           = spec_queryString [''cat''] [[''feline'', ''cat'', ''feline'', ''kitty'']]"
    by (rule queryString_refines_spec[OF h2, THEN conjunct1])
  show ?thesis by (simp add: 1 2 spec_queryString_def render_group_def)
qed

lemma europeana_detected_failure_items: "europeana_detected_failure r \<Longrightarrow> europeanaItems r = Inr []"
  by (auto simp: europeana_detected_failure_def europeanaItems_def split: settled.splits option.splits)

lemma plos_detected_failure_items: "plos_detected_failure r \<Longrightarrow> plosItems r = Inr []"
  by (auto simp: plos_detected_failure_def plosItems_def split: settled.splits option.splits)

lemma detected_failure_isolated:
  assumes "originalTerms userQuery \<noteq> []"
  shows "europeana_detected_failure (europeana w (searchQuery w userQuery)) \<Longrightarrow>
           plosItems (plos w (searchQuery w userQuery)) = Inr ps \<Longrightarrow>
           answer (handler w (Some userQuery)) = Json (sort_by by_normalized_score (normalize ps))"
    and "plos_detected_failure (plos w (searchQuery w userQuery)) \<Longrightarrow>
           europeanaItems (europeana w (searchQuery w userQuery)) = Inr es \<Longrightarrow>
           answer (handler w (Some userQuery)) = Json (sort_by by_normalized_score (normalize es))"
    and "europeana_detected_failure (europeana w (searchQuery w userQuery)) \<Longrightarrow>
           plos_detected_failure (plos w (searchQuery w userQuery)) \<Longrightarrow>
           answer (handler w (Some userQuery)) = Json []"
  by (simp_all add: handler_terms[OF assms] collected_def europeana_detected_failure_items
      plos_detected_failure_items sort_by_def)

text \<open>
  C4. A failure the handler detects (a rejected request, or data whose \<^verbatim>\<open>items\<close>,
  \<^verbatim>\<open>response\<close> or \<^verbatim>\<open>docs\<close> is falsy) leaves the records of the other provider as they are
  (lemma \<open>detected_failure_isolated\<close>), but not every malformed response is detected: for
  the query \<^verbatim>\<open>cat dog\<close>, when \<^verbatim>\<open>items\<close> in the response of Europeana is an object, the
  handler raises a TypeError that nothing catches, and the two records of PLOS are not
  returned.
\<close>

theorem uncaught_items_object:
  "plosItems (plos items_object (searchQuery items_object ''cat dog'')) = Inr
     [\<lparr>title = ''P1'', source = ''PLOS'', original_relevance_score = Fin 10,
        link = ''https://journals.plos.org/plosone/article?id=p1'', normalized_score = Fin 0\<rparr>,
      \<lparr>title = Sin_Titulo, source = ''PLOS'', original_relevance_score = Fin 5, link = ''#'',
        normalized_score = Fin 0\<rparr>]
   \<and> answer (handler items_object (Some ''cat dog'')) = Uncaught TypeError"
proof -
  have t: "originalTerms ''cat dog'' \<noteq> []" by (simp add: terms_cat_dog)
  have c: "collected items_object q = Inl TypeError" for q
    by (simp add: collected_def items_object_def europeanaItems_def)
  have p: "plosItems (plos items_object q) = Inr
     [\<lparr>title = ''P1'', source = ''PLOS'', original_relevance_score = Fin 10,
        link = ''https://journals.plos.org/plosone/article?id=p1'', normalized_score = Fin 0\<rparr>,
      \<lparr>title = Sin_Titulo, source = ''PLOS'', original_relevance_score = Fin 5, link = ''#'',
        normalized_score = Fin 0\<rparr>]" for q
    by (simp add: items_object_def demo_def plosItems_def plosItem_def or_str_def or_num_def)
  show ?thesis by (simp add: handler_terms[OF t] c p)
qed

lemma expansion_failed_empty: "expansion_failed (get term 5) \<Longrightarrow> expandQuery get term = []"
  by (auto simp: expansion_failed_def expandQuery_def expandQuery_try_def
      split: settled.splits datamuse_data.splits)

lemma expansion_failed_caught:
  "expansion_failed (get term 5) \<Longrightarrow> \<exists>e. expandQuery_try get term = Inl e"
  by (auto simp: expansion_failed_def expandQuery_try_def split: settled.splits datamuse_data.splits)

lemma queryGroup_no_synonyms: "queryGroup term [] = term"
  by (simp add: queryGroup_def new_Set_def set_add_def)

lemma allSynonyms_cong:
  assumes "\<And>j. j < length terms \<Longrightarrow> expandQuery (datamuse w j) (terms ! j) = expandQuery (datamuse w' j) (terms ! j)"
  shows "allSynonyms w terms = allSynonyms w' terms"
  by (rule nth_equalityI) (simp_all add: allSynonyms_def assms)

text \<open>
  C6. When the expansion request of a term fails (it is rejected, or its data cannot be
  mapped), the error is caught inside expandQuery, which returns the empty array; the
  group of that term in the query string is the term itself; and the whole exchange is
  the one in which the lexical service answered that request with zero matches, so that
  the failure never makes the handler reject the query, and a result list is returned
  whenever the responses of the providers raise no error.
\<close>

theorem expansion_failure_swallowed:
  assumes "i < length (originalTerms userQuery)"
    and "expansion_failed (datamuse w i (originalTerms userQuery ! i) 5)"
  shows "(\<exists>e. expandQuery_try (datamuse w i) (originalTerms userQuery ! i) = Inl e)
       \<and> expandQuery (datamuse w i) (originalTerms userQuery ! i) = []
       \<and> allSynonyms w (originalTerms userQuery) ! i = []
       \<and> queryGroups (originalTerms userQuery) (allSynonyms w (originalTerms userQuery)) ! i
           = originalTerms userQuery ! i
       \<and> handler w (Some userQuery) =
           handler (w\<lparr>datamuse := (datamuse w)(i := (\<lambda>ml mx. Fulfilled (WordArray [])))\<rparr>) (Some userQuery)
       \<and> (\<forall>message. answer (handler w (Some userQuery)) \<noteq> Status400 message)
       \<and> ((\<exists>rs. collected w (searchQuery w userQuery) = Inr rs) \<longrightarrow>
            (\<exists>results. answer (handler w (Some userQuery)) = Json results))"
proof -
  let ?ts = "originalTerms userQuery"
  let ?w = "w\<lparr>datamuse := (datamuse w)(i := (\<lambda>ml mx. Fulfilled (WordArray [])))\<rparr>"
  have 0: "\<exists>e. expandQuery_try (datamuse w i) (?ts ! i) = Inl e"
    using expansion_failed_caught[of "datamuse w i" "?ts ! i"] assms(2) by simp
  have 1: "expandQuery (datamuse w i) (?ts ! i) = []"
    using expansion_failed_empty[of "datamuse w i" "?ts ! i"] assms(2) by simp
  have 2: "allSynonyms w ?ts ! i = []"
    using assms(1) 1 by (simp add: allSynonyms_def)
  have 3: "queryGroups ?ts (allSynonyms w ?ts) ! i = ?ts ! i"
    using assms(1) 2 by (simp add: queryGroups_def queryGroup_no_synonyms)
  have ne: "userQuery \<noteq> []" using assms(1) by auto
  have "expandQuery (datamuse w j) (?ts ! j) = expandQuery (datamuse ?w j) (?ts ! j)" for j
    using 1 by (cases "j = i") (simp_all add: expandQuery_def expandQuery_try_def)
  then have s: "allSynonyms w ?ts = allSynonyms ?w ?ts" by (intro allSynonyms_cong)
  have ep: "europeana ?w = europeana w" "plos ?w = plos w" by simp_all
  have col: "collected ?w q = collected w q" for q
    by (simp only: collected_def ep)
  have 4: "handler w (Some userQuery) = handler ?w (Some userQuery)"
    by (simp add: handler_def Let_def s[symmetric] col)
  have 5: "\<forall>message. answer (handler w (Some userQuery)) \<noteq> Status400 message"
    using handler_status400_iff[of w "Some userQuery"] ne by simp
  have 6: "(\<exists>rs. collected w (searchQuery w userQuery) = Inr rs) \<longrightarrow>
            (\<exists>results. answer (handler w (Some userQuery)) = Json results)"
    using handler_answers[OF ne, of w] by auto
  show ?thesis using 0 1 2 3 4 5 6 by (intro conjI) assumption+
qed

lemma offline_query: "searchQuery offline ''cat dog'' = ''cat AND dog''"
  by (simp add: searchQuery_def terms_cat_dog allSynonyms_def offline_def expandQuery_def
      expandQuery_try_def queryString_def queryGroups_def queryGroup_def new_Set_def set_add_def upt_2)

text \<open>With the lexical service unreachable, \<^verbatim>\<open>cat dog\<close> is searched as \<^verbatim>\<open>cat AND dog\<close>.\<close>

theorem expansion_failure_swallowed_witness:
  "Suc 0 < length (originalTerms ''cat dog'')
   \<and> expansion_failed (datamuse offline (Suc 0) (originalTerms ''cat dog'' ! Suc 0) 5)
   \<and> queryGroups (originalTerms ''cat dog'') (allSynonyms offline (originalTerms ''cat dog'')) ! Suc 0 = ''dog''
   \<and> searchQuery offline ''cat dog'' = ''cat AND dog''
   \<and> answer (handler offline (Some ''cat dog'')) = Json []"
proof -
  have h1: "Suc 0 < length (originalTerms ''cat dog'')" by (simp add: terms_cat_dog)
  have h2: "expansion_failed (datamuse offline (Suc 0) (originalTerms ''cat dog'' ! Suc 0) 5)"
    by (simp add: expansion_failed_def offline_def)
  note th = expansion_failure_swallowed[of "Suc 0" "''cat dog''" offline, OF h1 h2]
  have g: "queryGroups (originalTerms ''cat dog'') (allSynonyms offline (originalTerms ''cat dog'')) ! Suc 0
           = originalTerms ''cat dog'' ! Suc 0"
    by (rule th[THEN conjunct2, THEN conjunct2, THEN conjunct2, THEN conjunct1])
  have c: "collected offline q = Inr []" for q
    by (simp add: collected_def offline_def europeanaItems_def plosItems_def)
  have t: "originalTerms ''cat dog'' \<noteq> []" by (simp add: terms_cat_dog)
  have a: "answer (handler offline (Some ''cat dog'')) = Json []"
    by (simp add: handler_terms[OF t] c sort_by_def)
  show ?thesis using h1 h2 g a by (simp add: offline_query terms_cat_dog)
qed

text \<open>
  C9 (as amended). When the lexical service answers the request for a term (with
  \<^verbatim>\<open>max=5\<close>) with an array of entries, expandQuery returns the words of the entries, all of
  them and in the order of the response: the result has at most 5 members when the
  response has, has no duplicates when the words of the response have none, and is empty
  when the response has no entry.
\<close>

theorem expandQuery_returns_response_words:
  assumes "get term 5 = Fulfilled (WordArray entries)"
  shows "expandQuery get term = map word entries
       \<and> (length entries \<le> 5 \<longrightarrow> length (expandQuery get term) \<le> 5)
       \<and> (distinct (map word entries) \<longrightarrow> distinct (expandQuery get term))
       \<and> (entries = [] \<longrightarrow> expandQuery get term = [])"
  using assms by (simp add: expandQuery_def expandQuery_try_def)

text \<open>One related word for \<^verbatim>\<open>cat\<close>, none for \<^verbatim>\<open>dog\<close>.\<close>

theorem expandQuery_returns_response_words_witness:
  "datamuse demo 0 ''cat'' 5 = Fulfilled (WordArray [\<lparr>word = ''feline'', entry_score = 1\<rparr>])
   \<and> expandQuery (datamuse demo 0) ''cat'' = [''feline'']
   \<and> datamuse demo 0 ''dog'' 5 = Fulfilled (WordArray [])
   \<and> expandQuery (datamuse demo 0) ''dog'' = []"
proof -
  have h1: "datamuse demo 0 ''cat'' 5 = Fulfilled (WordArray [\<lparr>word = ''feline'', entry_score = 1\<rparr>])"
    by (simp add: demo_def)
  have h2: "datamuse demo 0 ''dog'' 5 = Fulfilled (WordArray [])"
    by (simp add: demo_def)
  from expandQuery_returns_response_words[of "datamuse demo 0" "''cat''" "[\<lparr>word = ''feline'', entry_score = 1\<rparr>]"] h1
  have 1: "expandQuery (datamuse demo 0) ''cat'' = [''feline'']" by simp
  from expandQuery_returns_response_words[of "datamuse demo 0" "''dog''" "[]"] h2
  have 2: "expandQuery (datamuse demo 0) ''dog'' = []" by simp
  show ?thesis using h1 h2 1 2 by simp
qed

text \<open>
  C9 as stated fails when the response repeats a word: expandQuery returns the words as
  they come, duplicates included.
\<close>

theorem expandQuery_duplicates_counterexample:
  "expandQuery echo ''cat'' = [''feline'', ''feline''] \<and> \<not> distinct (expandQuery echo ''cat'')"
  by (simp add: expandQuery_def expandQuery_try_def echo_def)

lemma untitled_collected: "collected untitled q =
  Inr [\<lparr>title = '''', source = ''Europeana'', original_relevance_score = Fin 1, link = ''#'',
        normalized_score = Fin 0\<rparr>]"
  by (simp add: collected_def untitled_def offline_def europeanaItems_def plosItems_def
      europeanaItem_def or_str_def or_num_def)

text \<open>
  C7. A Europeana item whose title array holds the empty string yields a record with the
  empty title: the placeholder is used only when the array is absent or empty.
\<close>

theorem europeana_empty_title:
  "answer (handler untitled (Some ''cat'')) =
     Json [\<lparr>title = '''', source = ''Europeana'', original_relevance_score = Fin 1, link = ''#'',
            normalized_score = Fin 1\<rparr>]"
proof -
  have t: "originalTerms ''cat'' \<noteq> []" by (simp add: terms_cat)
  show ?thesis
    by (simp add: handler_terms[OF t] untitled_collected normalize_def divisor_def maxScore_def sort_by_def)
qed

text \<open>
  What the mapping of items to records does guarantee: a non-empty title for PLOS, the
  placeholder for an absent or empty title, a non-empty link, and the score 0 for an
  absent score.
\<close>

lemma plosItem_fields:
  "title (plosItem doc) \<noteq> [] \<and> link (plosItem doc) \<noteq> []
   \<and> (doc_score doc = None \<longrightarrow> original_relevance_score (plosItem doc) = Fin 0)
   \<and> (title_display doc = None \<or> title_display doc = Some [] \<longrightarrow> title (plosItem doc) = Sin_Titulo)
   \<and> (doc_id doc = None \<or> doc_id doc = Some [] \<longrightarrow> link (plosItem doc) = ''#'')"
  by (auto simp: plosItem_def or_str_def or_num_def Sin_Titulo_def split: option.splits)

lemma europeanaItem_fields:
  "link (europeanaItem item) \<noteq> []
   \<and> (item_score item = None \<longrightarrow> original_relevance_score (europeanaItem item) = Fin 0)
   \<and> (item_title item = None \<or> item_title item = Some [] \<longrightarrow> title (europeanaItem item) = Sin_Titulo)
   \<and> (\<forall>t ts. item_title item = Some (t # ts) \<longrightarrow> title (europeanaItem item) = t)
   \<and> ((edmIsShownBy item = None \<or> edmIsShownBy item = Some [])
        \<and> (edmIsShownAt item = None \<or> edmIsShownAt item = Some []) \<longrightarrow> link (europeanaItem item) = ''#'')"
  by (auto simp: europeanaItem_def or_str_def or_num_def split: option.splits)

end
